theory Spec2Isabelle
  imports Complex_Main "HOL-Library.Sublist" "HOL-Library.Multiset"
begin

section \<open>Tables of bouts\<close>

text \<open>
  The program (\<^verbatim>\<open>scripts/app.py\<close>) keeps the bout log in a pandas data frame. A frame is
  modelled as its list of column labels and its rows, every row a list of cells in column
  order. A cell is a missing value (\<^verbatim>\<open>NaN\<close>, \<^verbatim>\<open>NaT\<close>), a text, a number or a timestamp.
  Numbers are exact rationals: the rounding of the 64-bit floats is not modelled. Texts are
  lists of 8-bit characters: code points above 255 are not modelled.
\<close>

datatype cell = NaN | Str string | Num rat | Date int

record dataframe =
  columns :: "string list"
  rows :: "cell list list"

datatype error = KeyError string | InvalidIndexError | TypeError | ZeroDivisionError

text \<open>An exception ends the computation: \<open>and_then m f\<close> goes on with \<open>f\<close> when \<open>m\<close> has a
  value.\<close>

definition and_then :: "error + 'a \<Rightarrow> ('a \<Rightarrow> error + 'b) \<Rightarrow> error + 'b" where
  "and_then m f = (case m of Inl e \<Rightarrow> Inl e | Inr x \<Rightarrow> f x)"

text \<open>A frame as \<^verbatim>\<open>read_csv\<close> builds it: labels are unique and every row has one cell per
  column.\<close>

definition valid_frame :: "dataframe \<Rightarrow> bool" where
  "valid_frame df =
     (distinct (columns df) \<and> list_all (\<lambda>r. length r = length (columns df)) (rows df))"

text \<open>The cell of row \<open>r\<close> under label \<open>k\<close>, the first one when the label is repeated.\<close>

definition cell_at :: "string list \<Rightarrow> cell list \<Rightarrow> string \<Rightarrow> cell" where
  "cell_at cols r k = (case map_of (zip cols r) k of Some v \<Rightarrow> v | None \<Rightarrow> NaN)"

text \<open>\<^verbatim>\<open>df[k]\<close>: the column as a series, \<^verbatim>\<open>KeyError\<close> when the label does not exist.\<close>

definition getitem :: "dataframe \<Rightarrow> string \<Rightarrow> error + cell list" where
  "getitem df k =
     (if k \<in> set (columns df) then Inr (map (\<lambda>r. cell_at (columns df) r k) (rows df))
      else Inl (KeyError k))"

text \<open>\<^verbatim>\<open>df[df[k] == name]\<close>: the rows whose cell under \<open>k\<close> is the text \<open>name\<close>.\<close>

definition select_eq :: "dataframe \<Rightarrow> string \<Rightarrow> string \<Rightarrow> error + dataframe" where
  "select_eq df k name =
     (if k \<in> set (columns df)
      then Inr (df\<lparr>rows := filter (\<lambda>r. cell_at (columns df) r k = Str name) (rows df)\<rparr>)
      else Inl (KeyError k))"

text \<open>\<^verbatim>\<open>df[k] = v\<close> with a scalar: the column is overwritten, or appended as the last one.\<close>

definition setitem :: "dataframe \<Rightarrow> string \<Rightarrow> cell \<Rightarrow> dataframe" where
  "setitem df k v =
     (if k \<in> set (columns df)
      then df\<lparr>rows := map (\<lambda>r. map2 (\<lambda>c x. if c = k then v else x) (columns df) r) (rows df)\<rparr>
      else \<lparr>columns = columns df @ [k], rows = map (\<lambda>r. r @ [v]) (rows df)\<rparr>)"

text \<open>\<^verbatim>\<open>df.rename(columns=m)\<close>: labels that are keys of the dictionary are replaced, the others
  stay; keys that are no label are ignored. The cells do not move.\<close>

definition relabel :: "(string \<times> string) list \<Rightarrow> string \<Rightarrow> string" where
  "relabel m c = (case map_of m c of Some c' \<Rightarrow> c' | None \<Rightarrow> c)"

definition rename :: "(string \<times> string) list \<Rightarrow> dataframe \<Rightarrow> dataframe" where
  "rename m df = df\<lparr>columns := map (relabel m) (columns df)\<rparr>"

text \<open>
  \<^verbatim>\<open>pd.concat([a, b], ignore_index=True)\<close>: frames with the same labels are stacked; otherwise
  the result has the labels of \<open>a\<close> followed by the new ones of \<open>b\<close>, every row is re-indexed to
  them with \<^verbatim>\<open>NaN\<close> for a label it does not have, and re-indexing a frame with a repeated
  label raises \<^verbatim>\<open>InvalidIndexError\<close>. In the program a label is repeated only when \<^verbatim>\<open>rename\<close>
  produces a standard label that the table already has.
\<close>

definition reindex :: "string list \<Rightarrow> string list \<Rightarrow> cell list \<Rightarrow> cell list" where
  "reindex old new r = map (cell_at old r) new"

definition concat_frames :: "dataframe \<Rightarrow> dataframe \<Rightarrow> error + dataframe" where
  "concat_frames a b =
     (if columns a = columns b then Inr \<lparr>columns = columns a, rows = rows a @ rows b\<rparr>
      else if \<not> distinct (columns a) \<or> \<not> distinct (columns b) then Inl InvalidIndexError
      else let cs = columns a @ filter (\<lambda>c. c \<notin> set (columns a)) (columns b)
           in Inr \<lparr>columns = cs,
                   rows = map (reindex (columns a) cs) (rows a) @
                          map (reindex (columns b) cs) (rows b)\<rparr>)"

text \<open>
  \<^verbatim>\<open>df.sort_values(k)\<close>: ascending, missing values last. The program sorts the \<^verbatim>\<open>date\<close>
  column only, which holds timestamps once \<^verbatim>\<open>load_data\<close> has converted it; any other cell is
  ordered like \<^verbatim>\<open>NaT\<close>. Rows with equal keys keep their order here; pandas' default sort does
  not promise that, and no statement below depends on it.
\<close>

fun is_date :: "cell \<Rightarrow> bool" where
  "is_date (Date t) = True"
| "is_date _ = False"

fun date_of :: "cell \<Rightarrow> int" where
  "date_of (Date t) = t"
| "date_of _ = 0"

definition sort_values :: "string \<Rightarrow> dataframe \<Rightarrow> dataframe" where
  "sort_values k df =
     df\<lparr>rows := sort_key (\<lambda>r. date_of (cell_at (columns df) r k))
                   (filter (\<lambda>r. is_date (cell_at (columns df) r k)) (rows df)) @
                 filter (\<lambda>r. \<not> is_date (cell_at (columns df) r k)) (rows df)\<rparr>"

text \<open>
  \<^verbatim>\<open>Series.sum()\<close> and \<^verbatim>\<open>Series.mean()\<close> skip missing values; the sum of no value is 0 and the
  mean of no value is \<^verbatim>\<open>NaN\<close>. The sums here are exact. What pandas does beyond that is not
  modelled: the sum of a column of 64-bit integers wraps around, the sum of a column of floats
  is rounded, and the sum of a column of texts is their concatenation, on which the program
  fails later or not at all; a text or a timestamp in a summed column is reported as
  \<^verbatim>\<open>TypeError\<close> at once. The statements of the claims below say which exception ends a
  computation and what the frames hold; none of them is about the value of a sum.
\<close>

fun series_sum :: "cell list \<Rightarrow> error + rat" where
  "series_sum [] = Inr 0"
| "series_sum (NaN # cs) = series_sum cs"
| "series_sum (Num x # cs) = (case series_sum cs of Inl e \<Rightarrow> Inl e | Inr s \<Rightarrow> Inr (x + s))"
| "series_sum (c # cs) = Inl TypeError"

fun is_num :: "cell \<Rightarrow> bool" where
  "is_num (Num x) = True"
| "is_num _ = False"

definition series_mean :: "cell list \<Rightarrow> error + cell" where
  "series_mean cs =
     (case series_sum cs of
        Inl e \<Rightarrow> Inl e
      | Inr s \<Rightarrow> Inr (if filter is_num cs = [] then NaN
                       else Num (s / of_nat (length (filter is_num cs)))))"

section \<open>Method texts\<close>

text \<open>\<^verbatim>\<open>str.strip()\<close> removes the white space at both ends; these are the characters below
  code point 256 for which \<^verbatim>\<open>str.isspace\<close> holds.\<close>

definition is_space :: "char \<Rightarrow> bool" where
  "is_space c = (let n = (of_char c :: nat) in
     (9 \<le> n \<and> n \<le> 13) \<or> (28 \<le> n \<and> n \<le> 32) \<or> n = 133 \<or> n = 160)"

definition strip :: "string \<Rightarrow> string" where
  "strip s = rev (dropWhile is_space (rev (dropWhile is_space s)))"

text \<open>
  \<^verbatim>\<open>Series.str.contains(pat, case=False, na=False)\<close> searches every text for the regular
  expression \<open>pat\<close>, ignoring case, and gives \<^verbatim>\<open>False\<close> for a cell that is no text. Both
  patterns of the program are alternatives of literal texts, so a pattern is the list of its
  alternatives, and it is found when one of them is a contiguous part of the text. All their
  letters are ASCII, and ignoring case is comparing after mapping \<^verbatim>\<open>A-Z\<close> to \<^verbatim>\<open>a-z\<close>.
\<close>

definition lower_char :: "char \<Rightarrow> char" where
  "lower_char c = (let n = (of_char c :: nat) in
     if 65 \<le> n \<and> n \<le> 90 then char_of (n + 32) else c)"

definition lower :: "string \<Rightarrow> string" where
  "lower s = map lower_char s"

definition regex_search :: "string list \<Rightarrow> string \<Rightarrow> bool" where
  "regex_search alts s = list_ex (\<lambda>p. sublist (lower p) (lower s)) alts"

fun str_contains :: "string list \<Rightarrow> cell \<Rightarrow> bool" where
  "str_contains alts (Str s) = regex_search alts s"
| "str_contains alts c = False"

definition ko_pattern :: "string list" where
  "ko_pattern = [''KO'', ''TKO'', ''Knockout'', ''knockout'']"

definition sub_pattern :: "string list" where
  "sub_pattern = [''Sub'', ''submission'', ''Submission'', ''choke'', ''arm'', ''leg'',
     ''triangle'', ''rear naked'', ''guillotine'']"

text \<open>The two series \<^verbatim>\<open>ko_methods\<close> and \<^verbatim>\<open>sub_methods\<close> of \<^verbatim>\<open>calculate_fighter_stats\<close>.\<close>

definition ko_methods :: "cell list \<Rightarrow> bool list" where
  "ko_methods methods = map (str_contains ko_pattern) methods"

definition sub_methods :: "cell list \<Rightarrow> bool list" where
  "sub_methods methods = map (str_contains sub_pattern) methods"

text \<open>The classifier of one method text: the two flags the series hold for it.\<close>

definition classify :: "cell \<Rightarrow> bool \<times> bool" where
  "classify m = (str_contains ko_pattern m, str_contains sub_pattern m)"

text \<open>The loader's clean-up of the \<^verbatim>\<open>method\<close> column: \<^verbatim>\<open>str.strip()\<close>, which gives \<^verbatim>\<open>NaN\<close> for a
  cell that is no text, then \<^verbatim>\<open>replace\<close> with the dictionary of exact labels.\<close>

fun str_strip :: "cell \<Rightarrow> cell" where
  "str_strip (Str s) = Str (strip s)"
| "str_strip c = NaN"

definition method_synonyms :: "(string \<times> string) list" where
  "method_synonyms = [(''KO'', ''KO/TKO''), (''TKO'', ''KO/TKO''), (''Knockout'', ''KO/TKO''),
     (''Technical Knockout'', ''KO/TKO''), (''KO/TKO '', ''KO/TKO'')]"

fun replace :: "(string \<times> string) list \<Rightarrow> cell \<Rightarrow> cell" where
  "replace m (Str s) = (case map_of m s of Some t \<Rightarrow> Str t | None \<Rightarrow> Str s)"
| "replace m c = c"

definition normalize_method :: "cell \<Rightarrow> cell" where
  "normalize_method c = replace method_synonyms (str_strip c)"

section \<open>The aggregator: \<^verbatim>\<open>calculate_fighter_stats\<close>\<close>

record fighter_stats =
  name :: string
  total_fights :: nat
  wins :: nat
  losses :: nat
  win_rate :: rat
  ko_rate :: rat
  sub_rate :: rat
  strike_accuracy :: rat
  takedown_accuracy :: rat
  avg_fight_time :: cell
  ko_wins :: nat
  sub_wins :: nat
  fights_data :: dataframe

definition winner_columns :: "(string \<times> string) list" where
  "winner_columns = [(''winner_strikes_landed'', ''strikes_landed''),
     (''winner_strikes_attempted'', ''strikes_attempted''),
     (''winner_takedowns'', ''takedowns_landed''),
     (''winner_takedown_attempts'', ''takedown_attempts'')]"

definition loser_columns :: "(string \<times> string) list" where
  "loser_columns = [(''loser_strikes_landed'', ''strikes_landed''),
     (''loser_strikes_attempted'', ''strikes_attempted''),
     (''loser_takedowns'', ''takedowns_landed''),
     (''loser_takedown_attempts'', ''takedown_attempts'')]"

text \<open>The \<^verbatim>\<open>else\<close> branches: four columns of zeros.\<close>

definition dummy_columns :: "dataframe \<Rightarrow> dataframe" where
  "dummy_columns d =
     setitem (setitem (setitem (setitem d ''strikes_landed'' (Num 0))
       ''strikes_attempted'' (Num 0)) ''takedowns_landed'' (Num 0)) ''takedown_attempts'' (Num 0)"

definition wins_data :: "dataframe \<Rightarrow> dataframe" where
  "wins_data fighter_wins =
     (if ''winner_strikes_landed'' \<in> set (columns fighter_wins)
      then rename winner_columns fighter_wins else dummy_columns fighter_wins)"

definition losses_data :: "dataframe \<Rightarrow> dataframe" where
  "losses_data fighter_losses =
     (if ''loser_strikes_landed'' \<in> set (columns fighter_losses)
      then rename loser_columns fighter_losses else dummy_columns fighter_losses)"

definition all_fights :: "dataframe \<Rightarrow> dataframe \<Rightarrow> error + dataframe" where
  "all_fights wd ld =
     and_then (concat_frames wd ld) (\<lambda>af.
       Inr (if ''date'' \<in> set (columns af) then sort_values ''date'' af else af))"

text \<open>\<^verbatim>\<open>df[k].sum()\<close>.\<close>

definition column_sum :: "dataframe \<Rightarrow> string \<Rightarrow> error + rat" where
  "column_sum df k = and_then (getitem df k) series_sum"

text \<open>The number of \<^verbatim>\<open>True\<close> in a Boolean series.\<close>

definition count_true :: "bool list \<Rightarrow> nat" where
  "count_true bs = length (filter (\<lambda>b. b) bs)"

text \<open>
  A quotient whose divisor is 0 is no number (Python raises \<^verbatim>\<open>ZeroDivisionError\<close>, numpy
  gives \<^verbatim>\<open>inf\<close> or \<^verbatim>\<open>nan\<close>); the model reports it as an error. The program's five percentages
  all have the form \<^verbatim>\<open>(a / b * 100) if b > 0 else 0\<close>.
\<close>

definition true_divide :: "rat \<Rightarrow> rat \<Rightarrow> error + rat" where
  "true_divide a b = (if b = 0 then Inl ZeroDivisionError else Inr (a / b))"

definition rate :: "rat \<Rightarrow> rat \<Rightarrow> error + rat" where
  "rate a b =
     (if b > 0 then and_then (true_divide a b) (\<lambda>q. Inr (q * 100)) else Inr 0)"

text \<open>
  The statistics computed from the frames \<^verbatim>\<open>fighter_wins\<close> and \<^verbatim>\<open>fighter_losses\<close> (with their
  \<^verbatim>\<open>result\<close> column) and \<^verbatim>\<open>all_fights\<close>, in the order of the program, so that the first
  exception is the one reported.
\<close>

definition fighter_summary ::
  "string \<Rightarrow> dataframe \<Rightarrow> dataframe \<Rightarrow> dataframe \<Rightarrow> error + fighter_stats" where
  "fighter_summary fighter_name fighter_wins fighter_losses af =
     (let total = length (rows af);
          w = length (rows fighter_wins);
          l = length (rows fighter_losses);
          methods = map (\<lambda>r. cell_at (columns fighter_wins) r ''method'') (rows fighter_wins);
          ko = (if ''method'' \<in> set (columns fighter_wins)
                then count_true (ko_methods methods) else 0);
          sub = (if ''method'' \<in> set (columns fighter_wins)
                 then count_true (sub_methods methods) else 0)
      in and_then (column_sum af ''strikes_landed'') (\<lambda>total_strikes_landed.
         and_then (column_sum af ''strikes_attempted'') (\<lambda>total_strikes_attempted.
         and_then (rate total_strikes_landed total_strikes_attempted) (\<lambda>strike_acc.
         and_then (column_sum af ''takedowns_landed'') (\<lambda>total_takedowns_landed.
         and_then (column_sum af ''takedown_attempts'') (\<lambda>total_takedown_attempts.
         and_then (rate total_takedowns_landed total_takedown_attempts) (\<lambda>takedown_acc.
         and_then (if ''time_minutes'' \<in> set (columns af)
                   then series_mean (map (\<lambda>r. cell_at (columns af) r ''time_minutes'') (rows af))
                   else Inr (Num 0)) (\<lambda>avg.
         and_then (rate (of_nat w) (of_nat total)) (\<lambda>win_r.
         and_then (rate (of_nat ko) (of_nat w)) (\<lambda>ko_r.
         and_then (rate (of_nat sub) (of_nat w)) (\<lambda>sub_r.
         Inr \<lparr>name = fighter_name,
              total_fights = total,
              wins = w,
              losses = l,
              win_rate = win_r,
              ko_rate = ko_r,
              sub_rate = sub_r,
              strike_accuracy = strike_acc,
              takedown_accuracy = takedown_acc,
              avg_fight_time = avg,
              ko_wins = ko,
              sub_wins = sub,
              fights_data = af\<rparr>)))))))))))"

text \<open>
  The aggregator. \<open>Inr None\<close> is the program's \<^verbatim>\<open>return None\<close> for a fighter without a bout,
  \<open>Inl\<close> an exception. What the program writes to the page on the way (the warning and the
  list of win methods in the side bar) is not part of the model. The program calls it on
  tables that \<^verbatim>\<open>load_data\<close> returned: there the \<^verbatim>\<open>method\<close> column is a column of texts, on
  which the accessor \<^verbatim>\<open>.str\<close> exists, and that is taken for granted here.
\<close>

definition calculate_fighter_stats :: "dataframe \<Rightarrow> string \<Rightarrow> error + fighter_stats option" where
  "calculate_fighter_stats df fighter_name =
     and_then (select_eq df ''winner'' fighter_name) (\<lambda>fighter_wins.
     and_then (select_eq df ''loser'' fighter_name) (\<lambda>fighter_losses.
       if length (rows fighter_wins) = 0 \<and> length (rows fighter_losses) = 0 then Inr None
       else
         let fighter_wins = setitem fighter_wins ''result'' (Str ''Win'');
             fighter_losses = setitem fighter_losses ''result'' (Str ''Loss'')
         in and_then (all_fights (wins_data fighter_wins) (losses_data fighter_losses)) (\<lambda>af.
            and_then (fighter_summary fighter_name fighter_wins fighter_losses af) (\<lambda>stats.
            Inr (Some stats)))))"

section \<open>The finish-method chart: \<^verbatim>\<open>create_finish_method_pie\<close>\<close>

text \<open>The counts are numpy integers, which are signed: the difference is an integer.\<close>

definition decision_wins :: "fighter_stats \<Rightarrow> int" where
  "decision_wins stats = int (wins stats) - int (ko_wins stats) - int (sub_wins stats)"

text \<open>The chart is modelled by its slices: label, value and colour. The empty figure has
  none.\<close>

definition create_finish_method_pie :: "fighter_stats option \<Rightarrow> (string \<times> int \<times> string) list" where
  "create_finish_method_pie fighter_stats =
     (case fighter_stats of
        None \<Rightarrow> []
      | Some stats \<Rightarrow>
          if wins stats = 0 then []
          else (if ko_wins stats > 0 then [(''KO/TKO'', int (ko_wins stats), ''#ff4444'')] else []) @
               (if sub_wins stats > 0 then [(''Submission'', int (sub_wins stats), ''#44ff44'')] else []) @
               (if decision_wins stats > 0 then [(''Decision'', decision_wins stats, ''#4444ff'')] else []))"

section \<open>The loader: \<^verbatim>\<open>load_data\<close>\<close>

text \<open>
  The loader reads the file itself and reports on the page. The outcome of \<^verbatim>\<open>pd.read_csv\<close> is
  its input here, and the messages it shows (\<^verbatim>\<open>st.success\<close>, \<^verbatim>\<open>st.warning\<close>, \<^verbatim>\<open>st.error\<close>,
  \<^verbatim>\<open>st.info\<close>) are returned in order with the table; the date range and the side bar's list of
  methods are display only and left out. The program has no error values: every failure is a
  message and the result \<^verbatim>\<open>None\<close>.
\<close>

datatype csv = File_not_found | Read_error | Frame dataframe

datatype message =
    Success_loaded
  | Warning_invalid_dates nat
  | Error_missing_columns "string list"
  | Error_expected_columns
  | Info_loaded nat
  | Error_file_not_found
  | Error_loading

definition required_columns :: "string list" where
  "required_columns = [''winner'', ''loser'', ''method'']"

text \<open>\<^verbatim>\<open>df[k] = f(df[k])\<close> for a function of one cell.\<close>

definition map_column :: "string \<Rightarrow> (cell \<Rightarrow> cell) \<Rightarrow> dataframe \<Rightarrow> dataframe" where
  "map_column k f df =
     df\<lparr>rows := map (\<lambda>r. map2 (\<lambda>c x. if c = k then f x else x) (columns df) r) (rows df)\<rparr>"

text \<open>\<^verbatim>\<open>df.dropna(subset=ks)\<close>: the rows with no missing value under the labels \<open>ks\<close>.\<close>

definition dropna :: "string list \<Rightarrow> dataframe \<Rightarrow> dataframe" where
  "dropna ks df =
     df\<lparr>rows := filter (\<lambda>r. list_all (\<lambda>k. cell_at (columns df) r k \<noteq> NaN) ks) (rows df)\<rparr>"

text \<open>
  \<^verbatim>\<open>pd.to_datetime(..., errors='coerce')\<close> is a parameter \<open>parse\<close>: the timestamp of a cell, or
  \<open>None\<close> when it has none, which the program stores as \<^verbatim>\<open>NaT\<close>.
\<close>

definition to_datetime :: "(cell \<Rightarrow> int option) \<Rightarrow> cell \<Rightarrow> cell" where
  "to_datetime parse c = (case parse c of Some t \<Rightarrow> Date t | None \<Rightarrow> NaN)"

text \<open>
  Two exceptions of the library end in the handler \<^verbatim>\<open>except Exception\<close>. The accessor
  \<^verbatim>\<open>.str\<close> exists on a column of texts only: \<^verbatim>\<open>read_csv\<close> gives a column that has rows and no
  text in it a numeric type, and dropping rows later does not change the type, so it is
  judged on the file as read. And \<^verbatim>\<open>sorted(unique_methods)\<close> compares the values, which fails
  between a missing value and a text. The test \<^verbatim>\<open>'method' in df.columns\<close> before the clean-up
  always holds, since the column is required.
\<close>

fun is_str :: "cell \<Rightarrow> bool" where
  "is_str (Str s) = True"
| "is_str _ = False"

definition has_str_accessor :: "cell list \<Rightarrow> bool" where
  "has_str_accessor cs = (cs = [] \<or> list_ex is_str cs)"

definition sortable :: "cell list \<Rightarrow> bool" where
  "sortable cs = (\<not> (list_ex (\<lambda>c. c = NaN) cs \<and> list_ex is_str cs))"

definition column :: "dataframe \<Rightarrow> string \<Rightarrow> cell list" where
  "column df k = map (\<lambda>r. cell_at (columns df) r k) (rows df)"

definition load_data :: "(cell \<Rightarrow> int option) \<Rightarrow> csv \<Rightarrow> message list \<times> dataframe option" where
  "load_data parse file =
     (case file of
        File_not_found \<Rightarrow> ([Error_file_not_found], None)
      | Read_error \<Rightarrow> ([Error_loading], None)
      | Frame raw \<Rightarrow>
          let df = (if ''date'' \<in> set (columns raw)
                    then map_column ''date'' (to_datetime parse) raw else raw);
              invalid_dates = (if ''date'' \<in> set (columns raw)
                    then length (filter (\<lambda>c. c = NaN) (column df ''date'')) else 0);
              msgs = [Success_loaded] @
                     (if invalid_dates > 0 then [Warning_invalid_dates invalid_dates] else []);
              df = (if invalid_dates > 0 then dropna [''date''] df else df);
              missing_columns = filter (\<lambda>col. col \<notin> set (columns df)) required_columns
          in if missing_columns \<noteq> []
             then (msgs @ [Error_missing_columns missing_columns, Error_expected_columns], None)
             else
               let df = dropna [''winner'', ''loser''] df
               in if \<not> has_str_accessor (column raw ''method'')
                  then (msgs @ [Error_loading], None)
                  else
                    let df = map_column ''method'' normalize_method df;
                        msgs = msgs @ [Info_loaded (length (rows df))]
                    in if \<not> sortable (column df ''method'')
                       then (msgs @ [Error_loading], None)
                       else (msgs, Some df))"

section \<open>Notions used in the statements\<close>

text \<open>The rows a fighter won and the rows a fighter lost.\<close>

definition won :: "dataframe \<Rightarrow> string \<Rightarrow> cell list list" where
  "won df n = filter (\<lambda>r. cell_at (columns df) r ''winner'' = Str n) (rows df)"

definition lost :: "dataframe \<Rightarrow> string \<Rightarrow> cell list list" where
  "lost df n = filter (\<lambda>r. cell_at (columns df) r ''loser'' = Str n) (rows df)"

text \<open>The frames \<^verbatim>\<open>fighter_wins\<close> and \<^verbatim>\<open>fighter_losses\<close> once they have their \<^verbatim>\<open>result\<close>
  column.\<close>

definition wins_frame :: "dataframe \<Rightarrow> string \<Rightarrow> dataframe" where
  "wins_frame df n = setitem (df\<lparr>rows := won df n\<rparr>) ''result'' (Str ''Win'')"

definition losses_frame :: "dataframe \<Rightarrow> string \<Rightarrow> dataframe" where
  "losses_frame df n = setitem (df\<lparr>rows := lost df n\<rparr>) ''result'' (Str ''Loss'')"

text \<open>What \<^verbatim>\<open>df[k] = v\<close> does to the labels and to one row.\<close>

definition put_label :: "string list \<Rightarrow> string \<Rightarrow> string list" where
  "put_label cols k = (if k \<in> set cols then cols else cols @ [k])"

definition put_cell :: "string list \<Rightarrow> string \<Rightarrow> cell \<Rightarrow> cell list \<Rightarrow> cell list" where
  "put_cell cols k v r =
     (if k \<in> set cols then map2 (\<lambda>c x. if c = k then v else x) cols r else r @ [v])"

text \<open>The standard labels of a fighter's own figures, and the cells that can be summed.\<close>

definition figure_columns :: "string list" where
  "figure_columns = [''strikes_landed'', ''strikes_attempted'', ''takedowns_landed'',
     ''takedown_attempts'']"

definition numeric :: "cell \<Rightarrow> bool" where
  "numeric c = (c = NaN \<or> is_num c)"

fun num_val :: "cell \<Rightarrow> rat" where
  "num_val (Num x) = x"
| "num_val c = 0"

text \<open>
  A table as the input format describes it: a valid frame with the columns \<^verbatim>\<open>winner\<close> and
  \<^verbatim>\<open>loser\<close>, none of the standard labels, the four columns of the winner's figures all there
  when the first one is (and the same for the loser's), and numbers or missing values in the
  figure columns and in \<^verbatim>\<open>time_minutes\<close>.
\<close>

definition well_formed :: "dataframe \<Rightarrow> bool" where
  "well_formed df =
     (valid_frame df \<and> ''winner'' \<in> set (columns df) \<and> ''loser'' \<in> set (columns df) \<and>
      list_all (\<lambda>k. k \<notin> set (columns df)) figure_columns \<and>
      (''winner_strikes_landed'' \<in> set (columns df) \<longrightarrow>
         list_all (\<lambda>k. k \<in> set (columns df)) (map fst winner_columns)) \<and>
      (''loser_strikes_landed'' \<in> set (columns df) \<longrightarrow>
         list_all (\<lambda>k. k \<in> set (columns df)) (map fst loser_columns)) \<and>
      list_all (\<lambda>r. list_all (\<lambda>k. numeric (cell_at (columns df) r k))
         (''time_minutes'' # map fst winner_columns @ map fst loser_columns)) (rows df))"

text \<open>The two renaming dictionaries, and the common form of \<^verbatim>\<open>wins_data\<close> and
  \<^verbatim>\<open>losses_data\<close>.\<close>

definition side :: "(string \<times> string) list \<Rightarrow> bool" where
  "side m = (m = winner_columns \<or> m = loser_columns)"

definition own_figures :: "(string \<times> string) list \<Rightarrow> dataframe \<Rightarrow> dataframe" where
  "own_figures m d = (if fst (hd m) \<in> set (columns d) then rename m d else dummy_columns d)"

text \<open>A row involves a fighter who is its winner or its loser.\<close>

definition involves :: "string list \<Rightarrow> string \<Rightarrow> cell list \<Rightarrow> bool" where
  "involves cols n r = (cell_at cols r ''winner'' = Str n \<or> cell_at cols r ''loser'' = Str n)"

text \<open>
  The results of the perspectives one row gives a fighter: a win when the fighter is its
  winner, and a loss when the fighter is its loser.
\<close>

definition results_from_row :: "string list \<Rightarrow> string \<Rightarrow> cell list \<Rightarrow> cell list" where
  "results_from_row cols n r =
     (if cell_at cols r ''winner'' = Str n then [Str ''Win''] else []) @
     (if cell_at cols r ''loser'' = Str n then [Str ''Loss''] else [])"

text \<open>
  The figures of a perspective as the specification describes them: the cells of the side's
  own columns when the table has them, zeros when it does not. \<open>m\<close> is the side's renaming
  dictionary, whose keys are the side's columns.
\<close>

definition perspective_figures :: "(string \<times> string) list \<Rightarrow> string list \<Rightarrow> cell list \<Rightarrow> cell list" where
  "perspective_figures m cols r =
     (if list_all (\<lambda>k. k \<in> set cols) (map fst m) then map (cell_at cols r) (map fst m)
      else [Num 0, Num 0, Num 0, Num 0])"

text \<open>A pattern that neither begins nor ends with white space.\<close>

definition trimmed :: "string \<Rightarrow> bool" where
  "trimmed p = (lower p \<noteq> [] \<and> \<not> is_space (hd (lower p)) \<and> \<not> is_space (last (lower p)))"

text \<open>
  The loader in the words of the specification: the rows it keeps are those whose date
  parses (when the table has a \<^verbatim>\<open>date\<close> column) and whose winner and loser are not missing;
  a kept row has its date converted and its method normalized; the drop total it reports is
  the number of rows whose date does not parse.
\<close>

definition kept :: "(cell \<Rightarrow> int option) \<Rightarrow> string list \<Rightarrow> cell list \<Rightarrow> bool" where
  "kept parse cols r =
     ((''date'' \<in> set cols \<longrightarrow> parse (cell_at cols r ''date'') \<noteq> None) \<and>
      cell_at cols r ''winner'' \<noteq> NaN \<and> cell_at cols r ''loser'' \<noteq> NaN)"

definition cleaned :: "(cell \<Rightarrow> int option) \<Rightarrow> string list \<Rightarrow> cell list \<Rightarrow> cell list" where
  "cleaned parse cols r =
     map2 (\<lambda>c x. if c = ''date'' then to_datetime parse x
                  else if c = ''method'' then normalize_method x else x) cols r"

definition dropped_dates :: "(cell \<Rightarrow> int option) \<Rightarrow> dataframe \<Rightarrow> nat" where
  "dropped_dates parse raw =
     (if ''date'' \<in> set (columns raw)
      then length (filter (\<lambda>r. parse (cell_at (columns raw) r ''date'') = None) (rows raw))
      else 0)"

section \<open>Example tables\<close>

text \<open>Three bouts with every optional column: A beats B, C beats A, B beats C.\<close>

definition example_table :: dataframe where
  "example_table =
     \<lparr>columns = [''date'', ''winner'', ''loser'', ''method'', ''time_minutes'',
        ''winner_strikes_landed'', ''winner_strikes_attempted'', ''winner_takedowns'',
        ''winner_takedown_attempts'', ''loser_strikes_landed'', ''loser_strikes_attempted'',
        ''loser_takedowns'', ''loser_takedown_attempts''],
      rows = [
        [Date 1, Str ''A'', Str ''B'', Str ''KO/TKO'', Num 5,
         Num 30, Num 60, Num 1, Num 2, Num 10, Num 40, Num 0, Num 1],
        [Date 2, Str ''C'', Str ''A'', Str ''Decision - Unanimous'', Num 15,
         Num 50, Num 100, Num 2, Num 4, Num 45, Num 90, Num 1, Num 3],
        [Date 3, Str ''B'', Str ''C'', Str ''Submission (Rear Naked Choke)'', Num 7,
         Num 20, Num 25, Num 3, Num 3, Num 5, Num 15, Num 0, Num 0]]\<rparr>"

text \<open>The same table with the one bout that does not involve A replaced by two others.\<close>

definition other_table :: dataframe where
  "other_table =
     \<lparr>columns = columns example_table,
      rows = [
        [Date 0, Str ''D'', Str ''E'', Str ''TKO (Punches)'', Num 3,
         Num 9, Num 12, Num 0, Num 0, Num 2, Num 8, Num 0, Num 1],
        [Date 1, Str ''A'', Str ''B'', Str ''KO/TKO'', Num 5,
         Num 30, Num 60, Num 1, Num 2, Num 10, Num 40, Num 0, Num 1],
        [Date 2, Str ''C'', Str ''A'', Str ''Decision - Unanimous'', Num 15,
         Num 50, Num 100, Num 2, Num 4, Num 45, Num 90, Num 1, Num 3],
        [Date 4, Str ''E'', Str ''B'', Str ''Decision - Split'', Num 15,
         Num 70, Num 140, Num 0, Num 2, Num 60, Num 150, Num 1, Num 5]]\<rparr>"

text \<open>A table with the required columns only: one win by a method text that has both a
  knockout and a submission keyword.\<close>

definition leg_kick_table :: dataframe where
  "leg_kick_table =
     \<lparr>columns = [''winner'', ''loser'', ''method''],
      rows = [[Str ''A'', Str ''B'', Str ''TKO (Leg Kicks)'']]\<rparr>"

text \<open>One row whose winner is also its loser.\<close>

definition self_bout_table :: dataframe where
  "self_bout_table =
     \<lparr>columns = [''winner'', ''loser'', ''method''],
      rows = [[Str ''A'', Str ''A'', Str ''Decision'']]\<rparr>"

text \<open>
  Two bouts with the strike columns of both sides and no takedown column: A beats B, C
  beats A. The methods are clean already.
\<close>

definition strikes_only_table :: dataframe where
  "strikes_only_table =
     \<lparr>columns = [''winner'', ''loser'', ''method'', ''winner_strikes_landed'',
        ''winner_strikes_attempted'', ''loser_strikes_landed'', ''loser_strikes_attempted''],
      rows = [[Str ''A'', Str ''B'', Str ''KO/TKO'', Num 30, Num 60, Num 10, Num 40],
              [Str ''C'', Str ''A'', Str ''Decision'', Num 50, Num 100, Num 45, Num 90]]\<rparr>"

text \<open>One bout with three of the winner's four columns: the strikes landed are not on
  record.\<close>

definition attempts_only_table :: dataframe where
  "attempts_only_table =
     \<lparr>columns = [''winner'', ''loser'', ''method'', ''winner_strikes_attempted'',
        ''winner_takedowns'', ''winner_takedown_attempts''],
      rows = [[Str ''A'', Str ''B'', Str ''Decision'', Num 60, Num 1, Num 2]]\<rparr>"

text \<open>One bout with the winner's strikes landed alone and the four columns of the loser.\<close>

definition landed_only_table :: dataframe where
  "landed_only_table =
     \<lparr>columns = [''winner'', ''loser'', ''method'', ''winner_strikes_landed'',
        ''loser_strikes_landed'', ''loser_strikes_attempted'', ''loser_takedowns'',
        ''loser_takedown_attempts''],
      rows = [[Str ''A'', Str ''B'', Str ''Decision'', Num 30, Num 10, Num 40, Num 0, Num 1]]\<rparr>"

text \<open>
  A file as read, before loading: a bout with white space around its method, a row whose
  date does not parse, a row without a winner, and a clean row. The parser knows two dates.
\<close>

definition raw_table :: dataframe where
  "raw_table =
     \<lparr>columns = [''date'', ''winner'', ''loser'', ''method''],
      rows = [[Str ''2021-01-01'', Str ''A'', Str ''B'', Str '' KO ''],
              [Str ''not a date'', Str ''C'', Str ''A'', Str ''Decision''],
              [Str ''2021-06-01'', NaN, Str ''A'', Str ''Decision''],
              [Str ''2021-06-01'', Str ''C'', Str ''A'', Str ''Decision - Unanimous'']]\<rparr>"

definition raw_table_without_method :: dataframe where
  "raw_table_without_method =
     \<lparr>columns = [''date'', ''winner'', ''loser''],
      rows = [[Str ''2021-01-01'', Str ''A'', Str ''B'']]\<rparr>"

definition example_parse :: "cell \<Rightarrow> int option" where
  "example_parse c =
     (if c = Str ''2021-01-01'' then Some 18628
      else if c = Str ''2021-06-01'' then Some 18779 else None)"

section \<open>Frames and cells\<close>

lemma columns_setitem: "columns (setitem d k v) = put_label (columns d) k"
  by (simp add: setitem_def put_label_def)

lemma rows_setitem: "rows (setitem d k v) = map (put_cell (columns d) k v) (rows d)"
  by (simp add: setitem_def put_cell_def)

lemma length_put_cell:
  "length r = length cols \<Longrightarrow> length (put_cell cols k v r) = length (put_label cols k)"
  by (simp add: put_cell_def put_label_def)

lemma distinct_put_label: "distinct cols \<Longrightarrow> distinct (put_label cols k)"
  by (simp add: put_label_def)

lemma set_put_label: "set (put_label cols k) = insert k (set cols)"
  by (auto simp add: put_label_def)

lemma map_of_zip_map2:
  "length r = length cols \<Longrightarrow>
   map_of (zip cols (map2 (\<lambda>c x. if c = k then v else x) cols r)) j =
     (if j = k then (if k \<in> set cols then Some v else None) else map_of (zip cols r) j)"
proof (induction cols arbitrary: r)
  case Nil
  then show ?case by simp
next
  case (Cons c cols)
  then obtain x xs where r: "r = x # xs" by (cases r) auto
  with Cons show ?case by auto
qed

lemma map_of_zip_None:
  "length r = length cols \<Longrightarrow> k \<notin> set cols \<Longrightarrow> map_of (zip cols r) k = None"
  by (simp add: map_of_zip_is_None)

lemma map_of_zip_snoc:
  "length r = length cols \<Longrightarrow> k \<notin> set cols \<Longrightarrow>
   map_of (zip (cols @ [k]) (r @ [v])) j = (if j = k then Some v else map_of (zip cols r) j)"
  by (simp add: map_add_def map_of_zip_None split: option.splits)

lemma cell_at_put_cell:
  assumes "length r = length cols"
  shows "cell_at (put_label cols k) (put_cell cols k v r) j = (if j = k then v else cell_at cols r j)"
proof (cases "k \<in> set cols")
  case True
  then show ?thesis using assms
    by (simp add: cell_at_def put_label_def put_cell_def map_of_zip_map2)
next
  case False
  have "cell_at (cols @ [k]) (r @ [v]) j = (if j = k then v else cell_at cols r j)"
    unfolding cell_at_def by (subst map_of_zip_snoc[OF assms False]) simp
  then show ?thesis using False by (simp only: put_label_def put_cell_def if_False)
qed

lemma cell_at_absent: "length r = length cols \<Longrightarrow> k \<notin> set cols \<Longrightarrow> cell_at cols r k = NaN"
  by (simp add: cell_at_def map_of_zip_None)

lemma cell_at_map_label:
  "\<forall>x \<in> set cols. f x = f k \<longrightarrow> x = k \<Longrightarrow> cell_at (map f cols) r (f k) = cell_at cols r k"
proof (induction cols arbitrary: r)
  case Nil
  then show ?case by (simp add: cell_at_def)
next
  case (Cons c cols)
  show ?case
  proof (cases r)
    case Nil
    then show ?thesis by (simp add: cell_at_def)
  next
    case (Cons x xs)
    with Cons.IH[of xs] Cons.prems show ?thesis
      by (auto simp add: cell_at_def)
  qed
qed

lemma cell_at_reindex:
  "cell_at new (reindex old new r) k = (if k \<in> set new then cell_at old r k else NaN)"
proof -
  have "map_of (zip new (map (cell_at old r) new)) k =
          (if k \<in> set new then Some (cell_at old r k) else None)"
    by (simp add: map_of_zip_map)
  then show ?thesis by (simp add: cell_at_def reindex_def)
qed

lemma length_reindex: "length (reindex old new r) = length new"
  by (simp add: reindex_def)


subsection \<open>Exceptions\<close>

lemma and_then_Inl [simp]: "and_then (Inl e) f = Inl e"
  by (simp add: and_then_def)

lemma and_then_Inr [simp]: "and_then (Inr x) f = f x"
  by (simp add: and_then_def)

lemma and_then_eq_Inr: "and_then m f = Inr y \<longleftrightarrow> (\<exists>x. m = Inr x \<and> f x = Inr y)"
  by (cases m) simp_all

lemma rate_value: "rate a b = Inr (if b > 0 then a / b * 100 else 0)"
  by (simp add: rate_def true_divide_def)

lemma calculate_fighter_stats_unfold:
  "calculate_fighter_stats df n =
     (if ''winner'' \<notin> set (columns df) then Inl (KeyError ''winner'')
      else if ''loser'' \<notin> set (columns df) then Inl (KeyError ''loser'')
      else if won df n = [] \<and> lost df n = [] then Inr None
      else and_then (all_fights (wins_data (wins_frame df n)) (losses_data (losses_frame df n)))
             (\<lambda>af. and_then (fighter_summary n (wins_frame df n) (losses_frame df n) af)
                (\<lambda>stats. Inr (Some stats))))"
  by (simp add: calculate_fighter_stats_def select_eq_def won_def lost_def wins_frame_def
      losses_frame_def Let_def)

lemma fighter_summary_Inr:
  assumes "fighter_summary n fw fl af = Inr s"
  obtains L A TL TA avg where
    "column_sum af ''strikes_landed'' = Inr L"
    "column_sum af ''strikes_attempted'' = Inr A"
    "column_sum af ''takedowns_landed'' = Inr TL"
    "column_sum af ''takedown_attempts'' = Inr TA"
    "(if ''time_minutes'' \<in> set (columns af)
      then series_mean (map (\<lambda>r. cell_at (columns af) r ''time_minutes'') (rows af))
      else Inr (Num 0)) = Inr avg"
    "name s = n" "total_fights s = length (rows af)" "wins s = length (rows fw)"
    "losses s = length (rows fl)" "fights_data s = af"
    "strike_accuracy s = (if A > 0 then L / A * 100 else 0)"
    "takedown_accuracy s = (if TA > 0 then TL / TA * 100 else 0)"
    "avg_fight_time s = avg"
    "ko_wins s = (if ''method'' \<in> set (columns fw)
       then count_true (ko_methods (map (\<lambda>r. cell_at (columns fw) r ''method'') (rows fw))) else 0)"
    "sub_wins s = (if ''method'' \<in> set (columns fw)
       then count_true (sub_methods (map (\<lambda>r. cell_at (columns fw) r ''method'') (rows fw))) else 0)"
    "win_rate s = (if length (rows af) > 0
       then of_nat (length (rows fw)) / of_nat (length (rows af)) * 100 else 0)"
    "ko_rate s = (if length (rows fw) > 0
       then of_nat (ko_wins s) / of_nat (length (rows fw)) * 100 else 0)"
    "sub_rate s = (if length (rows fw) > 0
       then of_nat (sub_wins s) / of_nat (length (rows fw)) * 100 else 0)"
proof -
  from assms obtain L A TL TA avg where
    1: "column_sum af ''strikes_landed'' = Inr L"
    and 2: "column_sum af ''strikes_attempted'' = Inr A"
    and 3: "column_sum af ''takedowns_landed'' = Inr TL"
    and 4: "column_sum af ''takedown_attempts'' = Inr TA"
    and 5: "(if ''time_minutes'' \<in> set (columns af)
      then series_mean (map (\<lambda>r. cell_at (columns af) r ''time_minutes'') (rows af))
      else Inr (Num 0)) = Inr avg"
    unfolding fighter_summary_def Let_def and_then_eq_Inr by blast
  from assms have s: "s = \<lparr>name = n,
      total_fights = length (rows af), wins = length (rows fw), losses = length (rows fl),
      win_rate = (if length (rows af) > 0
        then of_nat (length (rows fw)) / of_nat (length (rows af)) * 100 else 0),
      ko_rate = (if length (rows fw) > 0 then of_nat (if ''method'' \<in> set (columns fw)
       then count_true (ko_methods (map (\<lambda>r. cell_at (columns fw) r ''method'') (rows fw))) else 0) / of_nat (length (rows fw)) * 100 else 0),
      sub_rate = (if length (rows fw) > 0 then of_nat (if ''method'' \<in> set (columns fw)
       then count_true (sub_methods (map (\<lambda>r. cell_at (columns fw) r ''method'') (rows fw))) else 0) / of_nat (length (rows fw)) * 100 else 0),
      strike_accuracy = (if A > 0 then L / A * 100 else 0),
      takedown_accuracy = (if TA > 0 then TL / TA * 100 else 0),
      avg_fight_time = avg,
      ko_wins = (if ''method'' \<in> set (columns fw)
       then count_true (ko_methods (map (\<lambda>r. cell_at (columns fw) r ''method'') (rows fw))) else 0),
      sub_wins = (if ''method'' \<in> set (columns fw)
       then count_true (sub_methods (map (\<lambda>r. cell_at (columns fw) r ''method'') (rows fw))) else 0),
      fights_data = af\<rparr>"
    unfolding fighter_summary_def Let_def 1 2 3 4 5 rate_value and_then_Inr
    by (simp only: sum.inject of_nat_0_less_iff)
  show thesis
    by (rule that[OF 1 2 3 4 5]) (simp_all add: s)
qed


subsection \<open>Frames stay valid, and their numbers of rows\<close>

lemma valid_frame_rows:
  "valid_frame d \<Longrightarrow> r \<in> set (rows d) \<Longrightarrow> length r = length (columns d)"
  by (simp add: valid_frame_def list_all_iff)

lemma valid_frame_filter: "valid_frame d \<Longrightarrow> valid_frame (d\<lparr>rows := filter P (rows d)\<rparr>)"
  by (simp add: valid_frame_def list_all_iff)

lemma valid_frame_setitem: "valid_frame d \<Longrightarrow> valid_frame (setitem d k v)"
  by (simp add: valid_frame_def list_all_iff columns_setitem rows_setitem distinct_put_label
      length_put_cell)

lemma valid_frame_dummy_columns: "valid_frame d \<Longrightarrow> valid_frame (dummy_columns d)"
  by (simp add: dummy_columns_def valid_frame_setitem)

lemma length_rows_setitem [simp]: "length (rows (setitem d k v)) = length (rows d)"
  by (simp add: rows_setitem)

lemma length_rows_wins_data [simp]: "length (rows (wins_data d)) = length (rows d)"
  by (simp add: wins_data_def rename_def dummy_columns_def)

lemma length_rows_losses_data [simp]: "length (rows (losses_data d)) = length (rows d)"
  by (simp add: losses_data_def rename_def dummy_columns_def)

lemma length_rows_concat_frames:
  "concat_frames a b = Inr af \<Longrightarrow> length (rows af) = length (rows a) + length (rows b)"
  by (auto simp add: concat_frames_def Let_def split: if_splits)

lemma mset_rows_sort_values: "mset (rows (sort_values k d)) = mset (rows d)"
  by (simp add: sort_values_def)

lemma columns_sort_values [simp]: "columns (sort_values k d) = columns d"
  by (simp add: sort_values_def)

lemma length_rows_sort_values [simp]: "length (rows (sort_values k d)) = length (rows d)"
  using mset_rows_sort_values[of k d] by (metis size_mset)

lemma all_fights_Inr:
  assumes "all_fights a b = Inr af"
  obtains af0 where "concat_frames a b = Inr af0" "columns af = columns af0"
    "mset (rows af) = mset (rows af0)"
  using assms by (auto simp add: all_fights_def and_then_eq_Inr mset_rows_sort_values)

lemma length_rows_all_fights:
  assumes "all_fights a b = Inr af"
  shows "length (rows af) = length (rows a) + length (rows b)"
proof -
  from assms obtain af0 where c: "concat_frames a b = Inr af0"
    and m: "mset (rows af) = mset (rows af0)" by (rule all_fights_Inr)
  from m have "length (rows af) = length (rows af0)" by (metis size_mset)
  with length_rows_concat_frames[OF c] show ?thesis by simp
qed

lemma rows_wins_frame [simp]: "length (rows (wins_frame df n)) = length (won df n)"
  by (simp add: wins_frame_def)

lemma rows_losses_frame [simp]: "length (rows (losses_frame df n)) = length (lost df n)"
  by (simp add: losses_frame_def)

text \<open>What a result of the aggregator is made of.\<close>

lemma calculate_fighter_stats_Some:
  assumes "calculate_fighter_stats df n = Inr (Some s)"
  obtains af where "''winner'' \<in> set (columns df)" "''loser'' \<in> set (columns df)"
    "won df n \<noteq> [] \<or> lost df n \<noteq> []"
    "all_fights (wins_data (wins_frame df n)) (losses_data (losses_frame df n)) = Inr af"
    "fighter_summary n (wins_frame df n) (losses_frame df n) af = Inr s"
  using assms unfolding calculate_fighter_stats_unfold
  by (auto simp add: and_then_eq_Inr split: if_splits)

lemma calculate_fighter_stats_None:
  "calculate_fighter_stats df n = Inr None \<longleftrightarrow>
     ''winner'' \<in> set (columns df) \<and> ''loser'' \<in> set (columns df) \<and> won df n = [] \<and> lost df n = []"
  unfolding calculate_fighter_stats_unfold
  by (auto simp add: and_then_eq_Inr split: if_splits)

subsection \<open>The fighter's own figures under the standard labels\<close>

lemma dummy_columns_rows:
  obtains g where "rows (dummy_columns d) = map g (rows d)"
    and "\<And>r j. length r = length (columns d) \<Longrightarrow>
           cell_at (columns (dummy_columns d)) (g r) j =
             (if j \<in> set figure_columns then Num 0 else cell_at (columns d) r j)"
proof -
  let ?c0 = "columns d"
  let ?c1 = "put_label ?c0 ''strikes_landed''"
  let ?c2 = "put_label ?c1 ''strikes_attempted''"
  let ?c3 = "put_label ?c2 ''takedowns_landed''"
  let ?g = "\<lambda>r. put_cell ?c3 ''takedown_attempts'' (Num 0)
              (put_cell ?c2 ''takedowns_landed'' (Num 0)
                (put_cell ?c1 ''strikes_attempted'' (Num 0)
                  (put_cell ?c0 ''strikes_landed'' (Num 0) r)))"
  have rows: "rows (dummy_columns d) = map ?g (rows d)"
    by (simp add: dummy_columns_def rows_setitem columns_setitem)
  have cells: "cell_at (columns (dummy_columns d)) (?g r) j =
      (if j \<in> set figure_columns then Num 0 else cell_at (columns d) r j)"
    if len: "length r = length (columns d)" for r j
  proof -
    let ?r1 = "put_cell ?c0 ''strikes_landed'' (Num 0) r"
    let ?r2 = "put_cell ?c1 ''strikes_attempted'' (Num 0) ?r1"
    let ?r3 = "put_cell ?c2 ''takedowns_landed'' (Num 0) ?r2"
    have l1: "length ?r1 = length ?c1" using len by (rule length_put_cell)
    have l2: "length ?r2 = length ?c2" using l1 by (rule length_put_cell)
    have l3: "length ?r3 = length ?c3" using l2 by (rule length_put_cell)
    show ?thesis
      by (simp add: dummy_columns_def columns_setitem figure_columns_def
          cell_at_put_cell[OF len] cell_at_put_cell[OF l1] cell_at_put_cell[OF l2]
          cell_at_put_cell[OF l3])
  qed
  show thesis using rows cells by (rule that)
qed

lemma set_columns_dummy_columns:
  "set (columns (dummy_columns d)) = set (columns d) \<union> set figure_columns"
  by (auto simp add: dummy_columns_def columns_setitem set_put_label figure_columns_def)

lemma relabel_winner_columns: "map (relabel winner_columns) (map fst winner_columns) = figure_columns"
  by (simp add: relabel_def winner_columns_def figure_columns_def)

lemma relabel_loser_columns: "map (relabel loser_columns) (map fst loser_columns) = figure_columns"
  by (simp add: relabel_def loser_columns_def figure_columns_def)

lemma relabel_sources: "side m \<Longrightarrow> map (relabel m) (map fst m) = figure_columns"
  unfolding side_def using relabel_winner_columns relabel_loser_columns by blast

lemma distinct_figure_columns: "distinct figure_columns"
  by (simp add: figure_columns_def)

lemma relabel_other: "x \<notin> set (map fst m) \<Longrightarrow> relabel m x = x"
  by (simp add: relabel_def map_of_eq_None_iff[THEN iffD2])

lemma relabel_source_figure:
  "side m \<Longrightarrow> x \<in> set (map fst m) \<Longrightarrow> relabel m x \<in> set figure_columns"
  using relabel_sources[of m] by (metis image_eqI list.set_map)

lemma relabel_inj_sources:
  assumes "side m" "x \<in> set (map fst m)" "y \<in> set (map fst m)" "relabel m x = relabel m y"
  shows "x = y"
proof -
  have "distinct (map (relabel m) (map fst m))"
    using relabel_sources[OF assms(1)] distinct_figure_columns by simp
  then have "inj_on (relabel m) (set (map fst m))" by (simp only: distinct_map)
  from this assms(4,2,3) show ?thesis by (rule inj_onD)
qed

lemma relabel_inj_on:
  assumes "side m" "set figure_columns \<inter> set cols = {}"
  shows "inj_on (relabel m) (set cols)"
proof (rule inj_onI)
  fix x y assume x: "x \<in> set cols" and y: "y \<in> set cols" and e: "relabel m x = relabel m y"
  show "x = y"
  proof (cases "x \<in> set (map fst m)")
    case True
    show ?thesis
    proof (cases "y \<in> set (map fst m)")
      case yT: True
      show ?thesis by (rule relabel_inj_sources[OF assms(1) True yT e])
    next
      case False
      then have "relabel m y = y" by (rule relabel_other)
      with e relabel_source_figure[OF assms(1) True] y assms(2) show ?thesis by auto
    qed
  next
    case False
    then have rx: "relabel m x = x" by (rule relabel_other)
    show ?thesis
    proof (cases "y \<in> set (map fst m)")
      case True
      with e rx relabel_source_figure[OF assms(1) True] x assms(2) show ?thesis by auto
    next
      case yF: False
      then have "relabel m y = y" by (rule relabel_other)
      with e rx show ?thesis by simp
    qed
  qed
qed

lemma cell_at_relabel:
  assumes "side m" "set figure_columns \<inter> set cols = {}" "k \<in> set cols"
  shows "cell_at (map (relabel m) cols) r (relabel m k) = cell_at cols r k"
proof (rule cell_at_map_label)
  from relabel_inj_on[OF assms(1,2)] assms(3)
  show "\<forall>x\<in>set cols. relabel m x = relabel m k \<longrightarrow> x = k"
    by (auto dest: inj_onD)
qed


lemma relabel_source_absent:
  assumes "side m" "set figure_columns \<inter> set cols = {}" "k \<in> set (map fst m)" "k \<notin> set cols"
  shows "relabel m k \<notin> set (map (relabel m) cols)"
proof
  assume "relabel m k \<in> set (map (relabel m) cols)"
  then obtain x where x: "x \<in> set cols" and e: "relabel m x = relabel m k" by auto
  show False
  proof (cases "x \<in> set (map fst m)")
    case True
    from relabel_inj_sources[OF assms(1) True assms(3) e] x assms(4) show False by simp
  next
    case False
    then have "relabel m x = x" by (rule relabel_other)
    with e relabel_source_figure[OF assms(1,3)] x assms(2) show False by auto
  qed
qed

lemma cell_at_relabel_source:
  assumes "side m" "set figure_columns \<inter> set cols = {}" "length r = length cols"
    "k \<in> set (map fst m)"
  shows "cell_at (map (relabel m) cols) r (relabel m k) = cell_at cols r k"
proof (cases "k \<in> set cols")
  case True
  with assms(1,2) show ?thesis by (rule cell_at_relabel)
next
  case False
  have "cell_at (map (relabel m) cols) r (relabel m k) = NaN"
    using relabel_source_absent[OF assms(1,2,4) False] assms(3) by (simp add: cell_at_absent)
  moreover have "cell_at cols r k = NaN" using assms(3) False by (rule cell_at_absent)
  ultimately show ?thesis by simp
qed

lemma cell_at_relabel_other:
  assumes "side m" "j \<notin> set figure_columns" "j \<notin> set (map fst m)"
  shows "cell_at (map (relabel m) cols) r j = cell_at cols r j"
proof -
  have j: "relabel m j = j" using assms(3) by (rule relabel_other)
  have "\<forall>x\<in>set cols. relabel m x = relabel m j \<longrightarrow> x = j"
  proof (intro ballI impI)
    fix x assume "x \<in> set cols" and e: "relabel m x = relabel m j"
    show "x = j"
    proof (cases "x \<in> set (map fst m)")
      case True
      from relabel_source_figure[OF assms(1) True] e j assms(2) show ?thesis by simp
    next
      case False
      then have "relabel m x = x" by (rule relabel_other)
      with e j show ?thesis by simp
    qed
  qed
  then have "cell_at (map (relabel m) cols) r (relabel m j) = cell_at cols r j"
    by (rule cell_at_map_label)
  with j show ?thesis by simp
qed

lemma figures_relabel:
  assumes "side m" "set figure_columns \<inter> set cols = {}" "length r = length cols"
  shows "map (cell_at (map (relabel m) cols) r) figure_columns = map (cell_at cols r) (map fst m)"
proof -
  have "map (cell_at (map (relabel m) cols) r) figure_columns =
      map (\<lambda>k. cell_at (map (relabel m) cols) r (relabel m k)) (map fst m)"
    by (simp only: relabel_sources[OF assms(1), symmetric] map_map comp_def)
  also have "\<dots> = map (cell_at cols r) (map fst m)"
    by (rule map_cong[OF refl]) (rule cell_at_relabel_source[OF assms])
  finally show ?thesis .
qed

lemma own_figures_rows:
  assumes "side m" "set figure_columns \<inter> set (columns d) = {}"
  obtains g where "rows (own_figures m d) = map g (rows d)"
    and "\<And>r j. length r = length (columns d) \<Longrightarrow> j \<notin> set figure_columns \<Longrightarrow>
           j \<notin> set (map fst m) \<Longrightarrow>
           cell_at (columns (own_figures m d)) (g r) j = cell_at (columns d) r j"
    and "\<And>r. length r = length (columns d) \<Longrightarrow>
           map (cell_at (columns (own_figures m d)) (g r)) figure_columns =
             (if fst (hd m) \<in> set (columns d) then map (cell_at (columns d) r) (map fst m)
              else [Num 0, Num 0, Num 0, Num 0])"
proof (cases "fst (hd m) \<in> set (columns d)")
  case True
  then have o: "own_figures m d = rename m d" by (simp add: own_figures_def)
  show thesis
  proof (rule that[of "\<lambda>r. r"])
    show "rows (own_figures m d) = map (\<lambda>r. r) (rows d)" by (simp add: o rename_def)
  next
    fix r :: "cell list" and j assume "length r = length (columns d)" "j \<notin> set figure_columns"
      "j \<notin> set (map fst m)"
    then show "cell_at (columns (own_figures m d)) r j = cell_at (columns d) r j"
      using cell_at_relabel_other[OF assms(1)] by (simp add: o rename_def)
  next
    fix r :: "cell list" assume "length r = length (columns d)"
    then show "map (cell_at (columns (own_figures m d)) r) figure_columns =
             (if fst (hd m) \<in> set (columns d) then map (cell_at (columns d) r) (map fst m)
              else [Num 0, Num 0, Num 0, Num 0])"
      using True figures_relabel[OF assms] by (simp add: o rename_def)
  qed
next
  case False
  then have o: "own_figures m d = dummy_columns d" by (simp add: own_figures_def)
  obtain g where g: "rows (dummy_columns d) = map g (rows d)"
    and c: "\<And>r j. length r = length (columns d) \<Longrightarrow>
           cell_at (columns (dummy_columns d)) (g r) j =
             (if j \<in> set figure_columns then Num 0 else cell_at (columns d) r j)"
    by (rule dummy_columns_rows[of d]) blast
  show thesis
  proof (rule that[of g])
    show "rows (own_figures m d) = map g (rows d)" by (simp add: o g)
  next
    fix r :: "cell list" and j assume "length r = length (columns d)" "j \<notin> set figure_columns"
      "j \<notin> set (map fst m)"
    then show "cell_at (columns (own_figures m d)) (g r) j = cell_at (columns d) r j"
      by (simp add: o c)
  next
    fix r :: "cell list" assume "length r = length (columns d)"
    then show "map (cell_at (columns (own_figures m d)) (g r)) figure_columns =
             (if fst (hd m) \<in> set (columns d) then map (cell_at (columns d) r) (map fst m)
              else [Num 0, Num 0, Num 0, Num 0])"
      using False by (simp add: o c figure_columns_def)
  qed
qed

lemma valid_frame_own_figures:
  assumes "side m" "set figure_columns \<inter> set (columns d) = {}" "valid_frame d"
  shows "valid_frame (own_figures m d)"
proof (cases "fst (hd m) \<in> set (columns d)")
  case True
  have "distinct (map (relabel m) (columns d))"
    using assms(3) relabel_inj_on[OF assms(1,2)] by (simp add: distinct_map valid_frame_def)
  with assms(3) True show ?thesis
    by (simp add: own_figures_def rename_def valid_frame_def)
next
  case False
  with assms(3) show ?thesis by (simp add: own_figures_def valid_frame_dummy_columns)
qed

lemma wins_data_own_figures: "wins_data d = own_figures winner_columns d"
  by (simp add: wins_data_def own_figures_def winner_columns_def)

lemma losses_data_own_figures: "losses_data d = own_figures loser_columns d"
  by (simp add: losses_data_def own_figures_def loser_columns_def)

subsection \<open>The combined frame\<close>

lemma set_columns_concat_frames:
  "concat_frames a b = Inr af \<Longrightarrow> set (columns af) = set (columns a) \<union> set (columns b)"
  by (auto simp add: concat_frames_def Let_def split: if_splits)

lemma concat_frames_rows:
  assumes "concat_frames a b = Inr af"
  obtains ga gb where "rows af = map ga (rows a) @ map gb (rows b)"
    and "\<And>r j. j \<in> set (columns af) \<Longrightarrow> cell_at (columns af) (ga r) j = cell_at (columns a) r j"
    and "\<And>r j. j \<in> set (columns af) \<Longrightarrow> cell_at (columns af) (gb r) j = cell_at (columns b) r j"
proof (cases "columns a = columns b")
  case True
  with assms have af: "af = \<lparr>columns = columns a, rows = rows a @ rows b\<rparr>"
    by (simp add: concat_frames_def)
  show thesis
    by (rule that[of "\<lambda>r. r" "\<lambda>r. r"]) (simp_all add: af True)
next
  case False
  let ?cs = "columns a @ filter (\<lambda>c. c \<notin> set (columns a)) (columns b)"
  from assms False have af: "af = \<lparr>columns = ?cs,
      rows = map (reindex (columns a) ?cs) (rows a) @ map (reindex (columns b) ?cs) (rows b)\<rparr>"
    by (simp add: concat_frames_def Let_def split: if_splits)
  show thesis
  proof (rule that[of "reindex (columns a) ?cs" "reindex (columns b) ?cs"])
    show "rows af = map (reindex (columns a) ?cs) (rows a) @ map (reindex (columns b) ?cs) (rows b)"
      by (simp add: af)
  next
    fix r :: "cell list" and j assume "j \<in> set (columns af)"
    then show "cell_at (columns af) (reindex (columns a) ?cs r) j = cell_at (columns a) r j"
      by (simp only: af dataframe.simps cell_at_reindex if_True)
  next
    fix r :: "cell list" and j assume "j \<in> set (columns af)"
    then show "cell_at (columns af) (reindex (columns b) ?cs r) j = cell_at (columns b) r j"
      by (simp only: af dataframe.simps cell_at_reindex if_True)
  qed
qed

lemma columns_wins_frame: "columns (wins_frame df n) = put_label (columns df) ''result''"
  by (simp add: wins_frame_def columns_setitem)

lemma rows_wins_frame_map:
  "rows (wins_frame df n) = map (put_cell (columns df) ''result'' (Str ''Win'')) (won df n)"
  by (simp add: wins_frame_def rows_setitem)

lemma columns_losses_frame: "columns (losses_frame df n) = put_label (columns df) ''result''"
  by (simp add: losses_frame_def columns_setitem)

lemma rows_losses_frame_map:
  "rows (losses_frame df n) = map (put_cell (columns df) ''result'' (Str ''Loss'')) (lost df n)"
  by (simp add: losses_frame_def rows_setitem)

lemma valid_frame_wins_frame: "valid_frame df \<Longrightarrow> valid_frame (wins_frame df n)"
  unfolding wins_frame_def won_def by (intro valid_frame_setitem valid_frame_filter)

lemma valid_frame_losses_frame: "valid_frame df \<Longrightarrow> valid_frame (losses_frame df n)"
  unfolding losses_frame_def lost_def by (intro valid_frame_setitem valid_frame_filter)

lemma figure_columns_put_result:
  "set figure_columns \<inter> set cols = {} \<Longrightarrow>
   set figure_columns \<inter> set (put_label cols ''result'') = {}"
  by (auto simp add: set_put_label figure_columns_def)

lemma won_length: "valid_frame df \<Longrightarrow> r \<in> set (won df n) \<Longrightarrow> length r = length (columns df)"
  by (simp add: won_def valid_frame_rows)

lemma lost_length: "valid_frame df \<Longrightarrow> r \<in> set (lost df n) \<Longrightarrow> length r = length (columns df)"
  by (simp add: lost_def valid_frame_rows)

text \<open>
  The rows built for one side: the rows \<open>rs\<close> of the table get the \<^verbatim>\<open>result\<close> \<open>v\<close> and the
  figures of the dictionary \<open>m\<close>.
\<close>

lemma side_rows:
  assumes m: "side m" and fig: "set figure_columns \<inter> set cols = {}"
    and d: "columns d = put_label cols ''result''"
       "rows d = map (put_cell cols ''result'' v) rs"
  obtains g where "rows (own_figures m d) = map g rs"
    and "\<And>r j. length r = length cols \<Longrightarrow> j \<notin> set figure_columns \<Longrightarrow> j \<notin> set (map fst m) \<Longrightarrow>
           cell_at (columns (own_figures m d)) (g r) j =
             (if j = ''result'' then v else cell_at cols r j)"
    and "\<And>r. length r = length cols \<Longrightarrow>
           map (cell_at (columns (own_figures m d)) (g r)) figure_columns =
             (if fst (hd m) \<in> set cols then map (cell_at cols r) (map fst m)
              else [Num 0, Num 0, Num 0, Num 0])"
proof -
  have fig': "set figure_columns \<inter> set (columns d) = {}"
    using fig by (simp only: d figure_columns_put_result)
  obtain g where g: "rows (own_figures m d) = map g (rows d)"
    and other: "\<And>r j. length r = length (columns d) \<Longrightarrow> j \<notin> set figure_columns \<Longrightarrow>
           j \<notin> set (map fst m) \<Longrightarrow>
           cell_at (columns (own_figures m d)) (g r) j = cell_at (columns d) r j"
    and figs: "\<And>r. length r = length (columns d) \<Longrightarrow>
           map (cell_at (columns (own_figures m d)) (g r)) figure_columns =
             (if fst (hd m) \<in> set (columns d) then map (cell_at (columns d) r) (map fst m)
              else [Num 0, Num 0, Num 0, Num 0])"
    using own_figures_rows[OF m fig'] by blast
  have res: "''result'' \<notin> set (map fst m)"
    using m by (auto simp add: side_def winner_columns_def loser_columns_def)
  have hd: "fst (hd m) \<in> set (map fst m)"
    using m by (auto simp add: side_def winner_columns_def loser_columns_def)
  let ?p = "put_cell cols ''result'' v"
  show thesis
  proof (rule that[of "\<lambda>r. g (?p r)"])
    show "rows (own_figures m d) = map (\<lambda>r. g (?p r)) rs" by (simp add: g d)
  next
    fix r :: "cell list" and j
    assume len: "length r = length cols" and j: "j \<notin> set figure_columns" "j \<notin> set (map fst m)"
    have "length (?p r) = length (columns d)" using len by (simp only: d length_put_cell)
    from other[OF this j] show "cell_at (columns (own_figures m d)) (g (?p r)) j =
             (if j = ''result'' then v else cell_at cols r j)"
      by (simp add: d cell_at_put_cell[OF len])
  next
    fix r :: "cell list" assume len: "length r = length cols"
    have l: "length (?p r) = length (columns d)" using len by (simp only: d length_put_cell)
    have "map (cell_at (columns d) (?p r)) (map fst m) = map (cell_at cols r) (map fst m)"
    proof (rule map_cong[OF refl])
      fix k assume "k \<in> set (map fst m)"
      with res have "k \<noteq> ''result''" by blast
      then show "cell_at (columns d) (?p r) k = cell_at cols r k"
        by (simp add: d cell_at_put_cell[OF len])
    qed
    moreover have "fst (hd m) \<noteq> ''result''" using hd res by metis
    then have "fst (hd m) \<in> set (columns d) \<longleftrightarrow> fst (hd m) \<in> set cols"
      by (simp add: d set_put_label)
    ultimately show "map (cell_at (columns (own_figures m d)) (g (?p r))) figure_columns =
             (if fst (hd m) \<in> set cols then map (cell_at cols r) (map fst m)
              else [Num 0, Num 0, Num 0, Num 0])"
      using figs[OF l] by simp
  qed
qed

lemma label_in_own_figures:
  assumes "j \<notin> set (map fst m)" "j \<in> set (columns d)"
  shows "j \<in> set (columns (own_figures m d))"
proof (cases "fst (hd m) \<in> set (columns d)")
  case True
  have "relabel m j \<in> relabel m ` set (columns d)" using assms(2) by (rule imageI)
  then show ?thesis using True relabel_other[OF assms(1)]
    by (simp add: own_figures_def rename_def)
next
  case False
  then show ?thesis using assms(2) by (simp add: own_figures_def set_columns_dummy_columns)
qed

lemma figure_columns_in_own_figures:
  assumes "side m" "fst (hd m) \<in> set (columns d) \<longrightarrow> set (map fst m) \<subseteq> set (columns d)"
  shows "set figure_columns \<subseteq> set (columns (own_figures m d))"
proof (cases "fst (hd m) \<in> set (columns d)")
  case True
  with assms(2) have "set (map fst m) \<subseteq> set (columns d)" by simp
  then have "relabel m ` set (map fst m) \<subseteq> relabel m ` set (columns d)" by (rule image_mono)
  moreover have "relabel m ` set (map fst m) = set figure_columns"
    using relabel_sources[OF assms(1)] by (metis list.set_map)
  ultimately show ?thesis using True by (simp add: own_figures_def rename_def)
next
  case False
  then show ?thesis by (simp add: own_figures_def set_columns_dummy_columns)
qed

lemma result_in_wins_data: "''result'' \<in> set (columns (wins_data (wins_frame df n)))"
  unfolding wins_data_own_figures
  by (rule label_in_own_figures)
     (simp_all add: winner_columns_def columns_wins_frame set_put_label)

lemma all_fights_rows:
  assumes v: "valid_frame df" and fig: "set figure_columns \<inter> set (columns df) = {}"
    and af: "all_fights (wins_data (wins_frame df n)) (losses_data (losses_frame df n)) = Inr af"
  obtains gw gl where
    "mset (rows af) = mset (map gw (won df n) @ map gl (lost df n))"
    and "\<And>r j. r \<in> set (won df n) \<Longrightarrow> j \<in> set (columns af) \<Longrightarrow> j \<notin> set figure_columns \<Longrightarrow>
           j \<notin> set (map fst winner_columns) \<Longrightarrow>
           cell_at (columns af) (gw r) j =
             (if j = ''result'' then Str ''Win'' else cell_at (columns df) r j)"
    and "\<And>r. r \<in> set (won df n) \<Longrightarrow> set figure_columns \<subseteq> set (columns af) \<Longrightarrow>
           map (cell_at (columns af) (gw r)) figure_columns =
             (if ''winner_strikes_landed'' \<in> set (columns df)
              then map (cell_at (columns df) r) (map fst winner_columns)
              else [Num 0, Num 0, Num 0, Num 0])"
    and "\<And>r j. r \<in> set (lost df n) \<Longrightarrow> j \<in> set (columns af) \<Longrightarrow> j \<notin> set figure_columns \<Longrightarrow>
           j \<notin> set (map fst loser_columns) \<Longrightarrow>
           cell_at (columns af) (gl r) j =
             (if j = ''result'' then Str ''Loss'' else cell_at (columns df) r j)"
    and "\<And>r. r \<in> set (lost df n) \<Longrightarrow> set figure_columns \<subseteq> set (columns af) \<Longrightarrow>
           map (cell_at (columns af) (gl r)) figure_columns =
             (if ''loser_strikes_landed'' \<in> set (columns df)
              then map (cell_at (columns df) r) (map fst loser_columns)
              else [Num 0, Num 0, Num 0, Num 0])"
proof -
  let ?wd = "own_figures winner_columns (wins_frame df n)"
  let ?ld = "own_figures loser_columns (losses_frame df n)"
  from af obtain af0 where c: "concat_frames ?wd ?ld = Inr af0"
    and cols: "columns af = columns af0" and ms: "mset (rows af) = mset (rows af0)"
    unfolding wins_data_own_figures losses_data_own_figures by (rule all_fights_Inr)
  obtain ga gb where rows0: "rows af0 = map ga (rows ?wd) @ map gb (rows ?ld)"
    and ga: "\<And>r j. j \<in> set (columns af0) \<Longrightarrow> cell_at (columns af0) (ga r) j = cell_at (columns ?wd) r j"
    and gb: "\<And>r j. j \<in> set (columns af0) \<Longrightarrow> cell_at (columns af0) (gb r) j = cell_at (columns ?ld) r j"
    using concat_frames_rows[OF c] by blast
  have sw: "side winner_columns" and sl: "side loser_columns" by (simp_all add: side_def)
  obtain g1 where g1: "rows ?wd = map g1 (won df n)"
    and g1o: "\<And>r j. length r = length (columns df) \<Longrightarrow> j \<notin> set figure_columns \<Longrightarrow>
           j \<notin> set (map fst winner_columns) \<Longrightarrow>
           cell_at (columns ?wd) (g1 r) j = (if j = ''result'' then Str ''Win'' else cell_at (columns df) r j)"
    and g1f: "\<And>r. length r = length (columns df) \<Longrightarrow>
           map (cell_at (columns ?wd) (g1 r)) figure_columns =
             (if fst (hd winner_columns) \<in> set (columns df)
              then map (cell_at (columns df) r) (map fst winner_columns)
              else [Num 0, Num 0, Num 0, Num 0])"
    using side_rows[OF sw fig columns_wins_frame rows_wins_frame_map] by blast
  obtain g2 where g2: "rows ?ld = map g2 (lost df n)"
    and g2o: "\<And>r j. length r = length (columns df) \<Longrightarrow> j \<notin> set figure_columns \<Longrightarrow>
           j \<notin> set (map fst loser_columns) \<Longrightarrow>
           cell_at (columns ?ld) (g2 r) j = (if j = ''result'' then Str ''Loss'' else cell_at (columns df) r j)"
    and g2f: "\<And>r. length r = length (columns df) \<Longrightarrow>
           map (cell_at (columns ?ld) (g2 r)) figure_columns =
             (if fst (hd loser_columns) \<in> set (columns df)
              then map (cell_at (columns df) r) (map fst loser_columns)
              else [Num 0, Num 0, Num 0, Num 0])"
    using side_rows[OF sl fig columns_losses_frame rows_losses_frame_map] by blast
  have hw: "fst (hd winner_columns) = ''winner_strikes_landed''" by (simp add: winner_columns_def)
  have hl: "fst (hd loser_columns) = ''loser_strikes_landed''" by (simp add: loser_columns_def)
  show thesis
  proof (rule that[of "\<lambda>r. ga (g1 r)" "\<lambda>r. gb (g2 r)"])
    show "mset (rows af) = mset (map (\<lambda>r. ga (g1 r)) (won df n) @ map (\<lambda>r. gb (g2 r)) (lost df n))"
      by (simp add: ms rows0 g1 g2 comp_def)
  next
    fix r j assume r: "r \<in> set (won df n)" and j: "j \<in> set (columns af)"
      "j \<notin> set figure_columns" "j \<notin> set (map fst winner_columns)"
    from j(1) have "cell_at (columns af) (ga (g1 r)) j = cell_at (columns ?wd) (g1 r) j"
      by (simp add: cols ga)
    with g1o[OF won_length[OF v r] j(2,3)]
    show "cell_at (columns af) (ga (g1 r)) j =
             (if j = ''result'' then Str ''Win'' else cell_at (columns df) r j)" by simp
  next
    fix r assume r: "r \<in> set (won df n)" and f: "set figure_columns \<subseteq> set (columns af)"
    have "map (cell_at (columns af) (ga (g1 r))) figure_columns =
        map (cell_at (columns ?wd) (g1 r)) figure_columns"
      by (rule map_cong[OF refl]) (use f in \<open>simp add: cols ga subsetD\<close>)
    with g1f[OF won_length[OF v r]]
    show "map (cell_at (columns af) (ga (g1 r))) figure_columns =
             (if ''winner_strikes_landed'' \<in> set (columns df)
              then map (cell_at (columns df) r) (map fst winner_columns)
              else [Num 0, Num 0, Num 0, Num 0])" by (simp only: hw)
  next
    fix r j assume r: "r \<in> set (lost df n)" and j: "j \<in> set (columns af)"
      "j \<notin> set figure_columns" "j \<notin> set (map fst loser_columns)"
    from j(1) have "cell_at (columns af) (gb (g2 r)) j = cell_at (columns ?ld) (g2 r) j"
      by (simp add: cols gb)
    with g2o[OF lost_length[OF v r] j(2,3)]
    show "cell_at (columns af) (gb (g2 r)) j =
             (if j = ''result'' then Str ''Loss'' else cell_at (columns df) r j)" by simp
  next
    fix r assume r: "r \<in> set (lost df n)" and f: "set figure_columns \<subseteq> set (columns af)"
    have "map (cell_at (columns af) (gb (g2 r))) figure_columns =
        map (cell_at (columns ?ld) (g2 r)) figure_columns"
      by (rule map_cong[OF refl]) (use f in \<open>simp add: cols gb subsetD\<close>)
    with g2f[OF lost_length[OF v r]]
    show "map (cell_at (columns af) (gb (g2 r))) figure_columns =
             (if ''loser_strikes_landed'' \<in> set (columns df)
              then map (cell_at (columns df) r) (map fst loser_columns)
              else [Num 0, Num 0, Num 0, Num 0])" by (simp only: hl)
  qed
qed

lemma set_columns_all_fights:
  assumes "all_fights a b = Inr af"
  shows "set (columns af) = set (columns a) \<union> set (columns b)"
proof -
  from assms obtain af0 where "concat_frames a b = Inr af0" "columns af = columns af0"
    by (rule all_fights_Inr)
  then show ?thesis using set_columns_concat_frames by simp
qed

lemma concat_frames_valid:
  assumes "valid_frame a" "valid_frame b"
  obtains af where "concat_frames a b = Inr af"
proof -
  from assms have "\<exists>af. concat_frames a b = Inr af"
    by (simp add: concat_frames_def valid_frame_def Let_def)
  then show thesis using that by blast
qed

lemma all_fights_valid:
  assumes "valid_frame a" "valid_frame b"
  obtains af where "all_fights a b = Inr af"
proof -
  from assms obtain af0 where "concat_frames a b = Inr af0" by (rule concat_frames_valid)
  then show thesis using that by (simp add: all_fights_def)
qed

subsection \<open>Sums of numeric columns\<close>

lemma series_sum_numeric:
  "list_all numeric cs \<Longrightarrow> series_sum cs = Inr (sum_list (map num_val cs))"
proof (induction cs)
  case Nil
  then show ?case by simp
next
  case (Cons c cs)
  then show ?case by (cases c) (simp_all add: numeric_def)
qed

lemma series_mean_numeric:
  assumes "list_all numeric cs"
  obtains v where "series_mean cs = Inr v"
  using series_sum_numeric[OF assms] by (simp add: series_mean_def)

lemma column_sum_numeric:
  assumes "k \<in> set (columns d)" "\<And>r. r \<in> set (rows d) \<Longrightarrow> numeric (cell_at (columns d) r k)"
  shows "column_sum d k = Inr (sum_list (map (\<lambda>r. num_val (cell_at (columns d) r k)) (rows d)))"
proof -
  have "list_all numeric (map (\<lambda>r. cell_at (columns d) r k) (rows d))"
    using assms(2) by (simp add: list_all_iff)
  from series_sum_numeric[OF this] assms(1) show ?thesis
    by (simp add: column_sum_def getitem_def comp_def)
qed

lemma fighter_summary_numeric:
  assumes "set figure_columns \<subseteq> set (columns af)"
    and "\<And>r k. r \<in> set (rows af) \<Longrightarrow> k \<in> set figure_columns \<Longrightarrow>
           numeric (cell_at (columns af) r k)"
    and "\<And>r. r \<in> set (rows af) \<Longrightarrow> ''time_minutes'' \<in> set (columns af) \<Longrightarrow>
           numeric (cell_at (columns af) r ''time_minutes'')"
  obtains s where "fighter_summary n fw fl af = Inr s"
proof -
  have in_cols: "''strikes_landed'' \<in> set (columns af)" "''strikes_attempted'' \<in> set (columns af)"
    "''takedowns_landed'' \<in> set (columns af)" "''takedown_attempts'' \<in> set (columns af)"
    using assms(1) by (simp_all add: figure_columns_def)
  have figs: "''strikes_landed'' \<in> set figure_columns" "''strikes_attempted'' \<in> set figure_columns"
    "''takedowns_landed'' \<in> set figure_columns" "''takedown_attempts'' \<in> set figure_columns"
    by (simp_all add: figure_columns_def)
  obtain L where 1: "column_sum af ''strikes_landed'' = Inr L"
    using column_sum_numeric[OF in_cols(1) assms(2)[OF _ figs(1)]] by blast
  obtain A where 2: "column_sum af ''strikes_attempted'' = Inr A"
    using column_sum_numeric[OF in_cols(2) assms(2)[OF _ figs(2)]] by blast
  obtain TL where 3: "column_sum af ''takedowns_landed'' = Inr TL"
    using column_sum_numeric[OF in_cols(3) assms(2)[OF _ figs(3)]] by blast
  obtain TA where 4: "column_sum af ''takedown_attempts'' = Inr TA"
    using column_sum_numeric[OF in_cols(4) assms(2)[OF _ figs(4)]] by blast
  obtain avg where 5: "(if ''time_minutes'' \<in> set (columns af)
      then series_mean (map (\<lambda>r. cell_at (columns af) r ''time_minutes'') (rows af))
      else Inr (Num 0)) = Inr avg"
  proof (cases "''time_minutes'' \<in> set (columns af)")
    case True
    then have "list_all numeric (map (\<lambda>r. cell_at (columns af) r ''time_minutes'') (rows af))"
      using assms(3) by (simp add: list_all_iff)
    then obtain v where
      "series_mean (map (\<lambda>r. cell_at (columns af) r ''time_minutes'') (rows af)) = Inr v"
      by (rule series_mean_numeric)
    with True that show ?thesis by simp
  next
    case False
    with that show ?thesis by simp
  qed
  have "\<exists>s. fighter_summary n fw fl af = Inr s"
    unfolding fighter_summary_def Let_def 1 2 3 4 5 rate_value and_then_Inr by blast
  then show thesis using that by blast
qed

lemma calculate_fighter_stats_returns:
  assumes wf: "well_formed df" and ap: "won df n \<noteq> [] \<or> lost df n \<noteq> []"
  shows "\<exists>s. calculate_fighter_stats df n = Inr (Some s)"
proof -
  from wf have v: "valid_frame df" and w: "''winner'' \<in> set (columns df)"
    and l: "''loser'' \<in> set (columns df)"
    by (simp_all add: well_formed_def)
  from wf have fig: "set figure_columns \<inter> set (columns df) = {}"
    by (auto simp add: well_formed_def list_all_iff)
  from wf have cw: "''winner_strikes_landed'' \<in> set (columns df) \<longrightarrow>
         set (map fst winner_columns) \<subseteq> set (columns df)"
    and cl: "''loser_strikes_landed'' \<in> set (columns df) \<longrightarrow>
         set (map fst loser_columns) \<subseteq> set (columns df)"
    unfolding well_formed_def list_all_iff by blast+
  from wf have "\<forall>r\<in>set (rows df).
      \<forall>k\<in>set (''time_minutes'' # map fst winner_columns @ map fst loser_columns).
        numeric (cell_at (columns df) r k)"
    unfolding well_formed_def list_all_iff by blast
  then have num: "\<And>r k. r \<in> set (rows df) \<Longrightarrow>
         k \<in> set (''time_minutes'' # map fst winner_columns @ map fst loser_columns) \<Longrightarrow>
         numeric (cell_at (columns df) r k)"
    by blast
  let ?fw = "wins_frame df n" and ?fl = "losses_frame df n"
  have sw: "side winner_columns" and sl: "side loser_columns" by (simp_all add: side_def)
  have figw: "set figure_columns \<inter> set (columns ?fw) = {}"
    using fig by (simp only: columns_wins_frame figure_columns_put_result)
  have figl: "set figure_columns \<inter> set (columns ?fl) = {}"
    using fig by (simp only: columns_losses_frame figure_columns_put_result)
  have vw: "valid_frame (wins_data ?fw)"
    unfolding wins_data_own_figures
    by (rule valid_frame_own_figures[OF sw figw valid_frame_wins_frame[OF v]])
  have vl: "valid_frame (losses_data ?fl)"
    unfolding losses_data_own_figures
    by (rule valid_frame_own_figures[OF sl figl valid_frame_losses_frame[OF v]])
  obtain af where af: "all_fights (wins_data ?fw) (losses_data ?fl) = Inr af"
    using all_fights_valid[OF vw vl] by blast
  obtain gw gl where
    ms: "mset (rows af) = mset (map gw (won df n) @ map gl (lost df n))"
    and gwo: "\<And>r j. r \<in> set (won df n) \<Longrightarrow> j \<in> set (columns af) \<Longrightarrow> j \<notin> set figure_columns \<Longrightarrow>
           j \<notin> set (map fst winner_columns) \<Longrightarrow>
           cell_at (columns af) (gw r) j =
             (if j = ''result'' then Str ''Win'' else cell_at (columns df) r j)"
    and gwf: "\<And>r. r \<in> set (won df n) \<Longrightarrow> set figure_columns \<subseteq> set (columns af) \<Longrightarrow>
           map (cell_at (columns af) (gw r)) figure_columns =
             (if ''winner_strikes_landed'' \<in> set (columns df)
              then map (cell_at (columns df) r) (map fst winner_columns)
              else [Num 0, Num 0, Num 0, Num 0])"
    and glo: "\<And>r j. r \<in> set (lost df n) \<Longrightarrow> j \<in> set (columns af) \<Longrightarrow> j \<notin> set figure_columns \<Longrightarrow>
           j \<notin> set (map fst loser_columns) \<Longrightarrow>
           cell_at (columns af) (gl r) j =
             (if j = ''result'' then Str ''Loss'' else cell_at (columns df) r j)"
    and glf: "\<And>r. r \<in> set (lost df n) \<Longrightarrow> set figure_columns \<subseteq> set (columns af) \<Longrightarrow>
           map (cell_at (columns af) (gl r)) figure_columns =
             (if ''loser_strikes_landed'' \<in> set (columns df)
              then map (cell_at (columns df) r) (map fst loser_columns)
              else [Num 0, Num 0, Num 0, Num 0])"
    using all_fights_rows[OF v fig af] by blast
  have hw: "fst (hd winner_columns) = ''winner_strikes_landed''" by (simp add: winner_columns_def)
  have "fst (hd winner_columns) \<in> set (columns ?fw) \<longrightarrow>
      set (map fst winner_columns) \<subseteq> set (columns ?fw)"
    using cw by (auto simp add: hw columns_wins_frame set_put_label)
  from figure_columns_in_own_figures[OF sw this]
  have "set figure_columns \<subseteq> set (columns (wins_data ?fw))"
    by (simp only: wins_data_own_figures)
  then have figs: "set figure_columns \<subseteq> set (columns af)"
    using set_columns_all_fights[OF af] by blast
  have rows: "set (rows af) = gw ` set (won df n) \<union> gl ` set (lost df n)"
    using ms by (metis set_mset_mset set_append set_map)
  have nz: "list_all numeric [Num 0, Num 0, Num 0, Num 0]" by (simp add: numeric_def)
  have numfig: "list_all numeric (map (cell_at (columns af) r') figure_columns)"
    if r': "r' \<in> set (rows af)" for r'
  proof -
    from r' rows consider r where "r \<in> set (won df n)" "r' = gw r"
      | r where "r \<in> set (lost df n)" "r' = gl r" by blast
    then show ?thesis
    proof cases
      case 1
      then have "r \<in> set (rows df)" by (simp add: won_def)
      then have "list_all numeric (map (cell_at (columns df) r) (map fst winner_columns))"
        using num by (simp add: list_all_iff)
      with nz show ?thesis unfolding 1(2) gwf[OF 1(1) figs] by simp
    next
      case 2
      then have "r \<in> set (rows df)" by (simp add: lost_def)
      then have "list_all numeric (map (cell_at (columns df) r) (map fst loser_columns))"
        using num by (simp add: list_all_iff)
      with nz show ?thesis unfolding 2(2) glf[OF 2(1) figs] by simp
    qed
  qed
  have numtm: "numeric (cell_at (columns af) r' ''time_minutes'')"
    if r': "r' \<in> set (rows af)" and tm: "''time_minutes'' \<in> set (columns af)" for r'
  proof -
    have a: "''time_minutes'' \<notin> set figure_columns" by (simp add: figure_columns_def)
    have b: "''time_minutes'' \<notin> set (map fst winner_columns)" by (simp add: winner_columns_def)
    have c: "''time_minutes'' \<notin> set (map fst loser_columns)" by (simp add: loser_columns_def)
    from r' rows consider r where "r \<in> set (won df n)" "r' = gw r"
      | r where "r \<in> set (lost df n)" "r' = gl r" by blast
    then show ?thesis
    proof cases
      case 1
      then have "r \<in> set (rows df)" by (simp add: won_def)
      then have "numeric (cell_at (columns df) r ''time_minutes'')" using num by simp
      then show ?thesis by (simp add: 1(2) gwo[OF 1(1) tm a b])
    next
      case 2
      then have "r \<in> set (rows df)" by (simp add: lost_def)
      then have "numeric (cell_at (columns df) r ''time_minutes'')" using num by simp
      then show ?thesis by (simp add: 2(2) glo[OF 2(1) tm a c])
    qed
  qed
  obtain s where s: "fighter_summary n ?fw ?fl af = Inr s"
  proof (rule fighter_summary_numeric[OF figs])
    fix r k assume "r \<in> set (rows af)" "k \<in> set figure_columns"
    with numfig show "numeric (cell_at (columns af) r k)" by (simp add: list_all_iff)
  qed (use numtm in blast)+
  show ?thesis
    unfolding calculate_fighter_stats_unfold using w l ap af s by simp
qed

subsection \<open>No division by zero\<close>

lemma and_then_eq_Inl:
  "and_then m f = Inl e \<longleftrightarrow> m = Inl e \<or> (\<exists>x. m = Inr x \<and> f x = Inl e)"
  by (cases m) simp_all

lemma series_sum_no_division: "series_sum cs \<noteq> Inl ZeroDivisionError"
proof (induction cs)
  case Nil
  then show ?case by simp
next
  case (Cons c cs)
  then show ?case by (cases c) (auto split: sum.splits)
qed

lemma column_sum_no_division: "column_sum d k \<noteq> Inl ZeroDivisionError"
  by (simp add: column_sum_def getitem_def series_sum_no_division)

lemma series_mean_no_division: "series_mean cs \<noteq> Inl ZeroDivisionError"
  using series_sum_no_division[of cs] by (auto simp add: series_mean_def split: sum.splits)

lemma all_fights_no_division: "all_fights a b \<noteq> Inl ZeroDivisionError"
  by (auto simp add: all_fights_def concat_frames_def Let_def and_then_eq_Inl)

lemma fighter_summary_no_division: "fighter_summary n fw fl af \<noteq> Inl ZeroDivisionError"
  unfolding fighter_summary_def Let_def and_then_eq_Inl rate_value
  using column_sum_no_division series_mean_no_division by auto

lemma calculate_fighter_stats_no_division: "calculate_fighter_stats df n \<noteq> Inl ZeroDivisionError"
  unfolding calculate_fighter_stats_unfold
  using all_fights_no_division fighter_summary_no_division
  by (auto simp add: and_then_eq_Inl)

subsection \<open>Perspectives\<close>

lemma mset_results_from_rows:
  "mset (concat (map (results_from_row cols n) rs)) =
     mset (map (\<lambda>r. Str ''Win'') (filter (\<lambda>r. cell_at cols r ''winner'' = Str n) rs) @
           map (\<lambda>r. Str ''Loss'') (filter (\<lambda>r. cell_at cols r ''loser'' = Str n) rs))"
  by (induction rs) (simp_all add: results_from_row_def)

lemma result_in_all_fights:
  assumes "all_fights (wins_data (wins_frame df n)) (losses_data (losses_frame df n)) = Inr af"
  shows "''result'' \<in> set (columns af)"
  using set_columns_all_fights[OF assms] result_in_wins_data[of df n] by simp

lemma result_not_source:
  "''result'' \<notin> set figure_columns" "''result'' \<notin> set (map fst winner_columns)"
  "''result'' \<notin> set (map fst loser_columns)"
  by (simp_all add: figure_columns_def winner_columns_def loser_columns_def)

lemma perspective_figures_side:
  assumes "side m"
    and "list_all (\<lambda>k. k \<in> set cols) (map fst m) \<or> list_all (\<lambda>k. k \<notin> set cols) (map fst m)"
  shows "(if fst (hd m) \<in> set cols then map (cell_at cols r) (map fst m)
          else [Num 0, Num 0, Num 0, Num 0]) = perspective_figures m cols r"
proof -
  have hd: "fst (hd m) \<in> set (map fst m)"
    using assms(1) by (auto simp add: side_def winner_columns_def loser_columns_def)
  from assms(2) hd have "fst (hd m) \<in> set cols \<longleftrightarrow> list_all (\<lambda>k. k \<in> set cols) (map fst m)"
    unfolding list_all_iff by blast
  then show ?thesis by (simp add: perspective_figures_def)
qed

lemma all_or_none_complete:
  assumes "list_all (\<lambda>k. k \<in> set cols) (map fst m) \<or> list_all (\<lambda>k. k \<notin> set cols) (map fst m)"
    and "fst (hd m) \<in> set (map fst m)" and "k0 \<notin> set (map fst m)"
  shows "fst (hd m) \<in> set (put_label cols k0) \<longrightarrow> set (map fst m) \<subseteq> set (put_label cols k0)"
  using assms unfolding list_all_iff set_put_label by blast

lemma figure_columns_in_all_fights:
  assumes "list_all (\<lambda>k. k \<in> set (columns df)) (map fst winner_columns) \<or>
           list_all (\<lambda>k. k \<notin> set (columns df)) (map fst winner_columns)"
    and "all_fights (wins_data (wins_frame df n)) (losses_data (losses_frame df n)) = Inr af"
  shows "set figure_columns \<subseteq> set (columns af)"
proof -
  have sw: "side winner_columns" by (simp add: side_def)
  have hd: "fst (hd winner_columns) \<in> set (map fst winner_columns)"
    by (simp add: winner_columns_def)
  have "fst (hd winner_columns) \<in> set (columns (wins_frame df n)) \<longrightarrow>
      set (map fst winner_columns) \<subseteq> set (columns (wins_frame df n))"
    unfolding columns_wins_frame
    by (rule all_or_none_complete[OF assms(1) hd result_not_source(2)])
  from figure_columns_in_own_figures[OF sw this]
  have "set figure_columns \<subseteq> set (columns (wins_data (wins_frame df n)))"
    by (simp only: wins_data_own_figures)
  then show ?thesis using set_columns_all_fights[OF assms(2)] by blast
qed

subsection \<open>Stripping and searching\<close>

lemma is_space_lower_char: "is_space (lower_char c) = is_space c"
  by (auto simp add: is_space_def lower_char_def Let_def)

lemma is_space_comp_lower_char: "is_space \<circ> lower_char = is_space"
  by (rule ext) (simp add: is_space_lower_char)

lemma lower_strip: "lower (strip s) = strip (lower s)"
  by (simp add: lower_def strip_def rev_map dropWhile_map is_space_comp_lower_char)

lemma sublist_dropWhile_left:
  assumes "p \<noteq> []" "\<not> P (hd p)"
  shows "sublist p (dropWhile P t) = sublist p t"
proof (induction t)
  case Nil
  then show ?case by simp
next
  case (Cons c t)
  show ?case
  proof (cases "P c")
    case True
    from assms obtain x xs where p: "p = x # xs" and x: "\<not> P x" by (cases p) auto
    with True have "x \<noteq> c" by blast
    then have "\<not> prefix p (c # t)" by (simp add: p)
    then have "sublist p (c # t) = sublist p t" by (simp add: sublist_Cons_right)
    with Cons True show ?thesis by simp
  next
    case False
    then show ?thesis by simp
  qed
qed

lemma sublist_strip:
  assumes "p \<noteq> []" "\<not> is_space (hd p)" "\<not> is_space (last p)"
  shows "sublist p (strip t) = sublist p t"
proof -
  have r: "rev p \<noteq> []" "\<not> is_space (hd (rev p))"
    using assms(1,3) by (simp_all add: hd_rev)
  have "sublist p (strip t) = sublist (rev p) (dropWhile is_space (rev (dropWhile is_space t)))"
    by (simp add: strip_def sublist_rev_right)
  also have "\<dots> = sublist (rev p) (rev (dropWhile is_space t))"
    by (rule sublist_dropWhile_left[of "rev p" is_space, OF r])
  also have "\<dots> = sublist p (dropWhile is_space t)" by simp
  also have "\<dots> = sublist p t" by (rule sublist_dropWhile_left[of p is_space, OF assms(1,2)])
  finally show ?thesis .
qed

lemma patterns_trimmed: "list_all trimmed ko_pattern" "list_all trimmed sub_pattern"
  by code_simp+

lemma regex_search_strip:
  assumes "list_all trimmed alts"
  shows "regex_search alts (strip s) = regex_search alts s"
proof -
  have "sublist (lower p) (lower (strip s)) = sublist (lower p) (lower s)" if "p \<in> set alts" for p
  proof -
    from assms that have "trimmed p" by (simp add: list_all_iff)
    then show ?thesis unfolding trimmed_def lower_strip by (intro sublist_strip) simp_all
  qed
  then show ?thesis by (simp add: regex_search_def list_ex_iff)
qed

lemma classify_strip: "classify (Str (strip s)) = classify (Str s)"
  by (simp add: classify_def regex_search_strip patterns_trimmed)

lemma synonyms_same_class:
  "list_all (\<lambda>(k, t). classify (Str k) = classify (Str t)) method_synonyms"
  by code_simp

lemma classify_replace: "classify (replace method_synonyms c) = classify c"
proof (cases c)
  case (Str s)
  show ?thesis
  proof (cases "map_of method_synonyms s")
    case None
    with Str show ?thesis by simp
  next
    case (Some t)
    then have "(s, t) \<in> set method_synonyms" by (rule map_of_SomeD)
    with synonyms_same_class have "classify (Str s) = classify (Str t)"
      unfolding list_all_iff by blast
    with Str Some show ?thesis by simp
  qed
qed simp_all

subsection \<open>The loader step by step\<close>

lemma map_of_zip_map2_fun:
  "length r = length cols \<Longrightarrow>
   map_of (zip cols (map2 (\<lambda>c x. if c = k then f x else x) cols r)) j =
     (if j = k then map_option f (map_of (zip cols r) k) else map_of (zip cols r) j)"
proof (induction cols arbitrary: r)
  case Nil
  then show ?case by simp
next
  case (Cons c cols)
  then obtain x xs where r: "r = x # xs" by (cases r) auto
  with Cons show ?case by auto
qed

lemma map_of_zip_Some:
  assumes "length r = length cols" "k \<in> set cols"
  obtains v where "map_of (zip cols r) k = Some v"
  using assms by (cases "map_of (zip cols r) k") (simp_all add: map_of_zip_is_None)

lemma cell_at_map2_fun:
  assumes "length r = length cols" "k \<in> set cols"
  shows "cell_at cols (map2 (\<lambda>c x. if c = k then f x else x) cols r) j =
           (if j = k then f (cell_at cols r k) else cell_at cols r j)"
proof -
  from assms obtain v where "map_of (zip cols r) k = Some v" by (rule map_of_zip_Some)
  then show ?thesis by (simp add: cell_at_def map_of_zip_map2_fun[OF assms(1)])
qed

lemma map2_cong_labels:
  "(\<And>c x. c \<in> set cols \<Longrightarrow> f c x = g c x) \<Longrightarrow> map2 f cols r = map2 g cols r"
  by (rule map_cong[OF refl]) (auto dest: set_zip_leftD)

lemma map2_map2_labels:
  "map2 f cols (map2 g cols r) = map2 (\<lambda>c x. f c (g c x)) cols r"
proof (induction cols arbitrary: r)
  case Nil
  then show ?case by simp
next
  case (Cons c cols)
  then show ?case by (cases r) simp_all
qed

lemma to_datetime_NaN: "to_datetime parse c = NaN \<longleftrightarrow> parse c = None"
  by (simp add: to_datetime_def split: option.splits)

lemma filter_all: "length (filter P xs) = 0 \<Longrightarrow> filter (\<lambda>x. \<not> P x) xs = xs"
  by (simp add: filter_empty_conv filter_id_conv)


lemma columns_map_column [simp]: "columns (map_column k f d) = columns d"
  by (simp add: map_column_def)

lemma rows_map_column:
  "rows (map_column k f d) = map (map2 (\<lambda>c x. if c = k then f x else x) (columns d)) (rows d)"
  by (simp add: map_column_def)

lemma columns_dropna [simp]: "columns (dropna ks d) = columns d"
  by (simp add: dropna_def)

text \<open>The table after the conversion of the dates and the two \<^verbatim>\<open>dropna\<close>.\<close>

lemma load_data_rows:
  fixes parse :: "cell \<Rightarrow> int option" and raw :: dataframe
  assumes v: "valid_frame raw"
  defines "cols \<equiv> columns raw"
  defines "conv \<equiv> \<lambda>r. if ''date'' \<in> set cols
      then map2 (\<lambda>c x. if c = ''date'' then to_datetime parse x else x) cols r else r"
  defines "df1 \<equiv> if ''date'' \<in> set cols then map_column ''date'' (to_datetime parse) raw else raw"
  defines "n \<equiv> if ''date'' \<in> set cols
      then length (filter (\<lambda>c. c = NaN) (column df1 ''date'')) else 0"
  defines "df2 \<equiv> if n > 0 then dropna [''date''] df1 else df1"
  shows "n = dropped_dates parse raw"
    and "columns df2 = cols"
    and "rows (dropna [''winner'', ''loser''] df2) = map conv (filter (kept parse cols) (rows raw))"
proof -
  have len: "length r = length cols" if "r \<in> set (rows raw)" for r
    using v that by (simp add: cols_def valid_frame_rows)
  have rows1: "rows df1 = map conv (rows raw)"
    by (simp add: df1_def conv_def map_column_def cols_def)
  have cols1: "columns df1 = cols" by (simp add: df1_def cols_def)
  have date: "cell_at cols (conv r) ''date'' = to_datetime parse (cell_at cols r ''date'')"
    if "r \<in> set (rows raw)" "''date'' \<in> set cols" for r
    using that by (simp add: conv_def cell_at_map2_fun[OF len])
  have other: "cell_at cols (conv r) j = cell_at cols r j"
    if "r \<in> set (rows raw)" "j \<noteq> ''date''" for r j
    using that by (simp add: conv_def cell_at_map2_fun[OF len])
  have nan: "filter (\<lambda>r. cell_at cols r ''date'' = NaN) (map conv (rows raw)) =
      map conv (filter (\<lambda>r. parse (cell_at cols r ''date'') = None) (rows raw))"
    if "''date'' \<in> set cols"
    unfolding filter_map comp_def
    by (rule arg_cong[where f = "map conv"], rule filter_cong[OF refl])
       (simp add: date that to_datetime_NaN)
  show n: "n = dropped_dates parse raw"
  proof (cases "''date'' \<in> set cols")
    case True
    have "filter (\<lambda>c. c = NaN) (column df1 ''date'') =
        map (\<lambda>r. cell_at cols r ''date'') (filter (\<lambda>r. cell_at cols r ''date'' = NaN) (rows df1))"
      by (simp add: column_def cols1 filter_map comp_def)
    then have "n = length (filter (\<lambda>r. cell_at cols r ''date'' = NaN) (map conv (rows raw)))"
      using True by (simp only: n_def rows1 if_True length_map)
    also have "\<dots> = length (filter (\<lambda>r. parse (cell_at cols r ''date'') = None) (rows raw))"
      by (simp only: nan[OF True] length_map)
    also have "\<dots> = dropped_dates parse raw"
      using True by (simp only: dropped_dates_def cols_def if_True)
    finally show ?thesis .
  next
    case False
    then show ?thesis by (simp add: n_def dropped_dates_def cols_def)
  qed
  show cols2: "columns df2 = cols" by (simp add: df2_def cols1)
  have rows2: "rows df2 = map conv (filter (\<lambda>r. ''date'' \<in> set cols \<longrightarrow>
      parse (cell_at cols r ''date'') \<noteq> None) (rows raw))"
  proof (cases "''date'' \<in> set cols")
    case True
    have keep: "filter (\<lambda>r. cell_at cols r ''date'' \<noteq> NaN) (map conv (rows raw)) =
        map conv (filter (\<lambda>r. parse (cell_at cols r ''date'') \<noteq> None) (rows raw))"
      unfolding filter_map comp_def
      by (rule arg_cong[where f = "map conv"], rule filter_cong[OF refl])
         (simp add: date True to_datetime_NaN)
    show ?thesis
    proof (cases "n > 0")
      case n0: True
      then show ?thesis using True by (simp add: df2_def dropna_def cols1 rows1 keep)
    next
      case False
      then have "length (filter (\<lambda>r. parse (cell_at cols r ''date'') = None) (rows raw)) = 0"
        using n True by (simp add: dropped_dates_def cols_def)
      then have "filter (\<lambda>r. \<not> parse (cell_at cols r ''date'') = None) (rows raw) = rows raw"
        by (rule filter_all)
      with False True show ?thesis by (simp add: df2_def rows1)
    qed
  next
    case False
    then have "n = 0" by (simp add: n_def)
    with False show ?thesis by (simp add: df2_def rows1)
  qed
  have "rows (dropna [''winner'', ''loser''] df2) =
      filter (\<lambda>r. cell_at cols r ''winner'' \<noteq> NaN \<and> cell_at cols r ''loser'' \<noteq> NaN) (rows df2)"
    by (simp add: dropna_def cols2)
  also have "\<dots> = map conv (filter (\<lambda>r. cell_at cols r ''winner'' \<noteq> NaN \<and>
      cell_at cols r ''loser'' \<noteq> NaN) (filter (\<lambda>r. ''date'' \<in> set cols \<longrightarrow>
      parse (cell_at cols r ''date'') \<noteq> None) (rows raw)))"
    unfolding rows2 filter_map comp_def
    by (rule arg_cong[where f = "map conv"], rule filter_cong[OF refl]) (simp add: other)
  also have "\<dots> = map conv (filter (kept parse cols) (rows raw))"
  proof -
    have "filter (\<lambda>r. cell_at cols r ''winner'' \<noteq> NaN \<and> cell_at cols r ''loser'' \<noteq> NaN)
        (filter (\<lambda>r. ''date'' \<in> set cols \<longrightarrow> parse (cell_at cols r ''date'') \<noteq> None) (rows raw)) =
      filter (kept parse cols) (rows raw)"
      unfolding filter_filter by (rule filter_cong[OF refl]) (auto simp add: kept_def)
    then show ?thesis by (rule arg_cong)
  qed
  finally show "rows (dropna [''winner'', ''loser''] df2) =
      map conv (filter (kept parse cols) (rows raw))" .
qed


lemma cleaned_rows:
  assumes "length r = length cols" "''method'' \<in> set cols"
  shows "map2 (\<lambda>c x. if c = ''method'' then normalize_method x else x) cols
           (if ''date'' \<in> set cols
            then map2 (\<lambda>c x. if c = ''date'' then to_datetime parse x else x) cols r else r) =
         cleaned parse cols r"
    and "cell_at cols (cleaned parse cols r) ''method'' = normalize_method (cell_at cols r ''method'')"
proof -
  show "map2 (\<lambda>c x. if c = ''method'' then normalize_method x else x) cols
           (if ''date'' \<in> set cols
            then map2 (\<lambda>c x. if c = ''date'' then to_datetime parse x else x) cols r else r) =
         cleaned parse cols r"
  proof (cases "''date'' \<in> set cols")
    case True
    then show ?thesis
      unfolding cleaned_def by (simp only: if_True map2_map2_labels) (rule map2_cong_labels, simp)
  next
    case False
    then show ?thesis
      unfolding cleaned_def by (simp only: if_False) (rule map2_cong_labels, auto)
  qed
  have "cleaned parse cols r =
      map2 (\<lambda>c x. if c = ''method'' then normalize_method x else x) cols
        (map2 (\<lambda>c x. if c = ''date'' then to_datetime parse x else x) cols r)"
    unfolding cleaned_def by (simp only: map2_map2_labels) (rule map2_cong_labels, simp)
  moreover have "length (map2 (\<lambda>c x. if c = ''date'' then to_datetime parse x else x) cols r) =
      length cols" using assms(1) by simp
  ultimately have "cell_at cols (cleaned parse cols r) ''method'' = normalize_method
      (cell_at cols (map2 (\<lambda>c x. if c = ''date'' then to_datetime parse x else x) cols r) ''method'')"
    using assms(2) by (simp add: cell_at_map2_fun)
  also have "cell_at cols (map2 (\<lambda>c x. if c = ''date'' then to_datetime parse x else x) cols r)
      ''method'' = cell_at cols r ''method''"
  proof (cases "''date'' \<in> set cols")
    case True
    then show ?thesis by (simp add: cell_at_map2_fun[OF assms(1)])
  next
    case False
    have "map2 (\<lambda>c x. if c = ''date'' then to_datetime parse x else x) cols r =
        map2 (\<lambda>c x. x) cols r"
      by (rule map2_cong_labels) (use False in auto)
    also have "\<dots> = r"
      using assms(1)[symmetric] by (induction cols r rule: list_induct2) simp_all
    finally show ?thesis by simp
  qed
  finally show "cell_at cols (cleaned parse cols r) ''method'' =
      normalize_method (cell_at cols r ''method'')" .
qed

lemma load_data_Frame:
  fixes parse :: "cell \<Rightarrow> int option" and raw :: dataframe
  assumes v: "valid_frame raw"
  defines "cols \<equiv> columns raw"
  defines "missing \<equiv> filter (\<lambda>c. c \<notin> set cols) required_columns"
  defines "msgs \<equiv> Success_loaded # (if dropped_dates parse raw > 0
      then [Warning_invalid_dates (dropped_dates parse raw)] else [])"
  defines "rs \<equiv> map (cleaned parse cols) (filter (kept parse cols) (rows raw))"
  defines "ms \<equiv> map (\<lambda>r. normalize_method (cell_at cols r ''method''))
      (filter (kept parse cols) (rows raw))"
  shows "load_data parse (Frame raw) =
     (if missing \<noteq> [] then (msgs @ [Error_missing_columns missing, Error_expected_columns], None)
      else if \<not> has_str_accessor (column raw ''method'') then (msgs @ [Error_loading], None)
      else if \<not> sortable ms then (msgs @ [Info_loaded (length rs), Error_loading], None)
      else (msgs @ [Info_loaded (length rs)], Some \<lparr>columns = cols, rows = rs\<rparr>))"
proof -
  let ?conv = "\<lambda>r. if ''date'' \<in> set cols
      then map2 (\<lambda>c x. if c = ''date'' then to_datetime parse x else x) cols r else r"
  let ?df1 = "if ''date'' \<in> set cols then map_column ''date'' (to_datetime parse) raw else raw"
  let ?n = "if ''date'' \<in> set cols
      then length (filter (\<lambda>c. c = NaN) (column ?df1 ''date'')) else 0"
  let ?df2 = "if ?n > 0 then dropna [''date''] ?df1 else ?df1"
  let ?df3 = "dropna [''winner'', ''loser''] ?df2"
  let ?df4 = "map_column ''method'' normalize_method ?df3"
  have n: "?n = dropped_dates parse raw" and cols2: "columns ?df2 = cols"
    and rows3: "rows ?df3 = map ?conv (filter (kept parse cols) (rows raw))"
    unfolding cols_def by (rule load_data_rows[OF v])+
  have unfold: "load_data parse (Frame raw) =
     (if Miss \<noteq> []
      then (M @ [Error_missing_columns Miss, Error_expected_columns], None)
      else if \<not> has_str_accessor (column raw ''method'') then (M @ [Error_loading], None)
      else if \<not> sortable C then ((M @ [Info_loaded (length R)]) @ [Error_loading], None)
      else (M @ [Info_loaded (length R)], Some D))"
    if "M = [Success_loaded] @ (if ?n > 0 then [Warning_invalid_dates ?n] else [])"
      and "Miss = filter (\<lambda>col. col \<notin> set (columns ?df2)) required_columns"
      and "Miss = [] \<Longrightarrow> C = column ?df4 ''method''"
      and "Miss = [] \<Longrightarrow> R = rows ?df4" and "Miss = [] \<Longrightarrow> D = ?df4" for M Miss C R D
  proof (cases "Miss = []")
    case True
    show ?thesis
      unfolding that(3)[OF True] that(4)[OF True] that(5)[OF True] that(1) that(2)
      by (simp only: load_data_def csv.case Let_def cols_def)
  next
    case False
    show ?thesis
      using False unfolding that(1) that(2) cols_def
      by (simp only: load_data_def csv.case Let_def if_True if_False simp_thms)
  qed
  have m: "[Success_loaded] @ (if ?n > 0 then [Warning_invalid_dates ?n] else []) = msgs"
    by (simp only: n msgs_def append_Cons append_Nil)
  have miss: "filter (\<lambda>col. col \<notin> set (columns ?df2)) required_columns = missing"
    by (simp only: cols2 missing_def)
  have "''method'' \<in> set cols" if "missing = []"
    using that by (simp add: missing_def required_columns_def split: if_splits)
  note meth = this
  have len: "length r = length cols" if "r \<in> set (rows raw)" for r
    using v that by (simp add: cols_def valid_frame_rows)
  have cols3: "columns ?df3 = cols" by (simp only: columns_dropna cols2)
  have rows4: "rs = rows ?df4" if e: "missing = []"
  proof -
    have "rows ?df4 = map (map2 (\<lambda>c x. if c = ''method'' then normalize_method x else x) cols)
        (rows ?df3)"
      by (simp only: rows_map_column cols3)
    also have "\<dots> = rs"
      unfolding rows3 rs_def map_map comp_def
      by (rule map_cong[OF refl]) (simp add: cleaned_rows(1) len meth[OF e])
    finally show ?thesis by simp
  qed
  have cols4: "columns ?df4 = cols" by (simp only: columns_map_column cols3)
  have df4: "\<lparr>columns = cols, rows = rs\<rparr> = ?df4" if e: "missing = []"
    using rows4[OF e] cols4 by (intro dataframe.equality) simp_all
  have col4: "ms = column ?df4 ''method''" if e: "missing = []"
  proof -
    have "column ?df4 ''method'' = column \<lparr>columns = cols, rows = rs\<rparr> ''method''"
      by (simp only: df4[OF e])
    also have "\<dots> = map (\<lambda>r. cell_at cols r ''method'') rs"
      by (simp add: column_def)
    also have "\<dots> = ms"
      unfolding rs_def ms_def map_map comp_def
      by (rule map_cong[OF refl]) (simp add: cleaned_rows(2) len meth[OF e])
    finally show ?thesis by simp
  qed
  show ?thesis
    using unfold[OF m[symmetric] miss[symmetric] col4 rows4 df4] by simp
qed

subsection \<open>Tables whose figure columns are complete\<close>

text \<open>
  On a well-formed table the aggregator has a result for every name: none when the name is
  in no row, and a stats object otherwise, whose two finish rates are 0 when it has no win.
\<close>

lemma no_result_iff_absent:
  assumes "well_formed df"
  shows "(calculate_fighter_stats df n = Inr None \<longleftrightarrow>
            \<not> (\<exists>r \<in> set (rows df). cell_at (columns df) r ''winner'' = Str n \<or>
                                  cell_at (columns df) r ''loser'' = Str n)) \<and>
         ((\<exists>r \<in> set (rows df). cell_at (columns df) r ''winner'' = Str n \<or>
                               cell_at (columns df) r ''loser'' = Str n) \<longrightarrow>
            (\<exists>s. calculate_fighter_stats df n = Inr (Some s) \<and>
                 (wins s = 0 \<longrightarrow> ko_rate s = 0 \<and> sub_rate s = 0)))"
proof -
  from assms have w: "''winner'' \<in> set (columns df)" and l: "''loser'' \<in> set (columns df)"
    by (simp_all add: well_formed_def)
  have absent: "(won df n = [] \<and> lost df n = []) \<longleftrightarrow>
      \<not> (\<exists>r \<in> set (rows df). cell_at (columns df) r ''winner'' = Str n \<or>
                            cell_at (columns df) r ''loser'' = Str n)"
    by (auto simp add: won_def lost_def filter_empty_conv)
  have 1: "calculate_fighter_stats df n = Inr None \<longleftrightarrow>
      \<not> (\<exists>r \<in> set (rows df). cell_at (columns df) r ''winner'' = Str n \<or>
                            cell_at (columns df) r ''loser'' = Str n)"
    using w l absent by (simp add: calculate_fighter_stats_None)
  have 2: "\<exists>s. calculate_fighter_stats df n = Inr (Some s) \<and>
                 (wins s = 0 \<longrightarrow> ko_rate s = 0 \<and> sub_rate s = 0)"
    if "\<exists>r \<in> set (rows df). cell_at (columns df) r ''winner'' = Str n \<or>
                             cell_at (columns df) r ''loser'' = Str n"
  proof -
    from that absent have "won df n \<noteq> [] \<or> lost df n \<noteq> []" by blast
    from calculate_fighter_stats_returns[OF assms this]
    obtain s where s: "calculate_fighter_stats df n = Inr (Some s)" by blast
    then obtain af where "fighter_summary n (wins_frame df n) (losses_frame df n) af = Inr s"
      by (rule calculate_fighter_stats_Some)
    then have "wins s = length (rows (wins_frame df n))"
      and "ko_rate s = (if length (rows (wins_frame df n)) > 0
         then of_nat (ko_wins s) / of_nat (length (rows (wins_frame df n))) * 100 else 0)"
      and "sub_rate s = (if length (rows (wins_frame df n)) > 0
         then of_nat (sub_wins s) / of_nat (length (rows (wins_frame df n))) * 100 else 0)"
      by (auto elim: fighter_summary_Inr)
    then have "wins s = 0 \<longrightarrow> ko_rate s = 0 \<and> sub_rate s = 0" by simp
    with s show ?thesis by (intro exI[of _ s] conjI)
  qed
  from 1 2 show ?thesis by blast
qed

text \<open>
  When the four columns of each side are all there or all missing, the perspectives carry,
  up to their order, the cells of the side's own columns or four zeros.
\<close>

lemma perspective_figures_by_side:
  assumes "valid_frame df" and "set figure_columns \<inter> set (columns df) = {}"
    and "list_all (\<lambda>k. k \<in> set (columns df)) (map fst winner_columns) \<or>
         list_all (\<lambda>k. k \<notin> set (columns df)) (map fst winner_columns)"
    and "list_all (\<lambda>k. k \<in> set (columns df)) (map fst loser_columns) \<or>
         list_all (\<lambda>k. k \<notin> set (columns df)) (map fst loser_columns)"
    and "calculate_fighter_stats df n = Inr (Some s)"
  shows "mset (map (\<lambda>r. map (cell_at (columns (fights_data s)) r) (''result'' # figure_columns))
                 (rows (fights_data s))) =
         mset (map (\<lambda>r. Str ''Win'' # perspective_figures winner_columns (columns df) r) (won df n) @
               map (\<lambda>r. Str ''Loss'' # perspective_figures loser_columns (columns df) r) (lost df n))"
proof -
  from assms(5) obtain af where
    af: "all_fights (wins_data (wins_frame df n)) (losses_data (losses_frame df n)) = Inr af"
    and s: "fighter_summary n (wins_frame df n) (losses_frame df n) af = Inr s"
    by (rule calculate_fighter_stats_Some)
  from s have fd: "fights_data s = af" by (auto elim: fighter_summary_Inr)
  obtain gw gl where
    ms: "mset (rows af) = mset (map gw (won df n) @ map gl (lost df n))"
    and gwo: "\<And>r j. r \<in> set (won df n) \<Longrightarrow> j \<in> set (columns af) \<Longrightarrow> j \<notin> set figure_columns \<Longrightarrow>
           j \<notin> set (map fst winner_columns) \<Longrightarrow>
           cell_at (columns af) (gw r) j =
             (if j = ''result'' then Str ''Win'' else cell_at (columns df) r j)"
    and gwf: "\<And>r. r \<in> set (won df n) \<Longrightarrow> set figure_columns \<subseteq> set (columns af) \<Longrightarrow>
           map (cell_at (columns af) (gw r)) figure_columns =
             (if ''winner_strikes_landed'' \<in> set (columns df)
              then map (cell_at (columns df) r) (map fst winner_columns)
              else [Num 0, Num 0, Num 0, Num 0])"
    and glo: "\<And>r j. r \<in> set (lost df n) \<Longrightarrow> j \<in> set (columns af) \<Longrightarrow> j \<notin> set figure_columns \<Longrightarrow>
           j \<notin> set (map fst loser_columns) \<Longrightarrow>
           cell_at (columns af) (gl r) j =
             (if j = ''result'' then Str ''Loss'' else cell_at (columns df) r j)"
    and glf: "\<And>r. r \<in> set (lost df n) \<Longrightarrow> set figure_columns \<subseteq> set (columns af) \<Longrightarrow>
           map (cell_at (columns af) (gl r)) figure_columns =
             (if ''loser_strikes_landed'' \<in> set (columns df)
              then map (cell_at (columns df) r) (map fst loser_columns)
              else [Num 0, Num 0, Num 0, Num 0])"
    using all_fights_rows[OF assms(1,2) af] by blast
  have sw: "side winner_columns" and sl: "side loser_columns" by (simp_all add: side_def)
  have hw: "fst (hd winner_columns) = ''winner_strikes_landed''" by (simp add: winner_columns_def)
  have hl: "fst (hd loser_columns) = ''loser_strikes_landed''" by (simp add: loser_columns_def)
  have res: "''result'' \<in> set (columns af)" using af by (rule result_in_all_fights)
  have figs: "set figure_columns \<subseteq> set (columns af)"
    using assms(3) af by (rule figure_columns_in_all_fights)
  let ?view = "\<lambda>r. map (cell_at (columns af) r) (''result'' # figure_columns)"
  have w: "?view (gw r) = Str ''Win'' # perspective_figures winner_columns (columns df) r"
    if r: "r \<in> set (won df n)" for r
    using gwo[OF r res result_not_source(1,2)] gwf[OF r figs]
      perspective_figures_side[OF sw assms(3), of r]
    by (simp only: hw list.map simp_thms if_True)
  have l: "?view (gl r) = Str ''Loss'' # perspective_figures loser_columns (columns df) r"
    if r: "r \<in> set (lost df n)" for r
    using glo[OF r res result_not_source(1,3)] glf[OF r figs]
      perspective_figures_side[OF sl assms(4), of r]
    by (simp only: hl list.map simp_thms if_True)
  have "mset (map ?view (rows af)) = image_mset ?view (mset (rows af))" by simp
  also have "\<dots> = mset (map ?view (map gw (won df n)) @ map ?view (map gl (lost df n)))"
    by (simp only: ms mset_map[symmetric] map_append)
  also have "map ?view (map gw (won df n)) =
      map (\<lambda>r. Str ''Win'' # perspective_figures winner_columns (columns df) r) (won df n)"
    unfolding map_map comp_def by (rule map_cong[OF refl]) (rule w)
  also have "map ?view (map gl (lost df n)) =
      map (\<lambda>r. Str ''Loss'' # perspective_figures loser_columns (columns df) r) (lost df n)"
    unfolding map_map comp_def by (rule map_cong[OF refl]) (rule l)
  finally show ?thesis by (simp only: fd)
qed

section \<open>The claims\<close>

text \<open>
  C1. Whenever the aggregator returns a stats object, its \<open>wins\<close> is the number of rows whose
  winner is the name, its \<open>losses\<close> the number of rows whose loser is the name, its
  \<open>total_fights\<close> the length of the combined sequence of perspectives, and
  \<open>wins + losses = total_fights\<close>. On a well-formed table it does return one for every name
  that is the winner or the loser of some row.
\<close>

theorem wins_plus_losses_is_total:
  "(calculate_fighter_stats df n = Inr (Some s) \<longrightarrow>
      wins s = length (won df n) \<and> losses s = length (lost df n) \<and>
      total_fights s = length (rows (fights_data s)) \<and>
      wins s + losses s = total_fights s) \<and>
   (well_formed df \<and> (won df n \<noteq> [] \<or> lost df n \<noteq> []) \<longrightarrow>
      (\<exists>s'. calculate_fighter_stats df n = Inr (Some s')))"
proof (intro conjI impI)
  assume "calculate_fighter_stats df n = Inr (Some s)"
  then obtain af where
    af: "all_fights (wins_data (wins_frame df n)) (losses_data (losses_frame df n)) = Inr af"
    and s: "fighter_summary n (wins_frame df n) (losses_frame df n) af = Inr s"
    by (rule calculate_fighter_stats_Some)
  from s have w: "wins s = length (rows (wins_frame df n))"
    and l: "losses s = length (rows (losses_frame df n))"
    and t: "total_fights s = length (rows af)" and f: "fights_data s = af"
    by (auto elim: fighter_summary_Inr)
  from w show "wins s = length (won df n)" by simp
  from l show "losses s = length (lost df n)" by simp
  from t f show "total_fights s = length (rows (fights_data s))" by simp
  from length_rows_all_fights[OF af] w l t show "wins s + losses s = total_fights s" by simp
next
  assume "well_formed df \<and> (won df n \<noteq> [] \<or> lost df n \<noteq> [])"
  then show "\<exists>s'. calculate_fighter_stats df n = Inr (Some s')"
    using calculate_fighter_stats_returns by blast
qed

theorem wins_plus_losses_is_total_witness:
  "well_formed example_table \<and> won example_table ''A'' \<noteq> [] \<and>
   (\<exists>s. calculate_fighter_stats example_table ''A'' = Inr (Some s) \<and>
      wins s = 1 \<and> losses s = 1 \<and> total_fights s = 2 \<and> wins s + losses s = total_fights s)"
proof -
  have wf: "well_formed example_table" by code_simp
  have w: "won example_table ''A'' \<noteq> []" by code_simp
  have lw: "length (won example_table ''A'') = 1" by code_simp
  have ll: "length (lost example_table ''A'') = 1" by code_simp
  from wf w wins_plus_losses_is_total[of example_table "''A''"]
  obtain s where s: "calculate_fighter_stats example_table ''A'' = Inr (Some s)" by blast
  with wins_plus_losses_is_total[of example_table "''A''" s] lw ll
  have "wins s = 1 \<and> losses s = 1 \<and> total_fights s = 2 \<and> wins s + losses s = total_fights s"
    by simp
  with wf w s show ?thesis by blast
qed

text \<open>
  C2. The claim fails on the code for a table that has the strike columns and no takedown
  column. The table is valid and the loader returns it as it is, yet for the fighter B, who
  is in one row as loser, and for A, who is in two rows, the aggregator ends in the
  \<^verbatim>\<open>KeyError\<close> of \<^verbatim>\<open>all_fights['takedowns_landed']\<close> and returns no stats object. The program
  tests one column, \<^verbatim>\<open>winner_strikes_landed\<close> or \<^verbatim>\<open>loser_strikes_landed\<close>, for the presence of
  four, where its comment promises dummy columns when the detailed columns do not exist and
  its help text calls the striking columns optional.
\<close>

theorem listed_fighter_without_stats:
  "valid_frame strikes_only_table \<and>
   load_data example_parse (Frame strikes_only_table) =
     ([Success_loaded, Info_loaded 2], Some strikes_only_table) \<and>
   lost strikes_only_table ''B'' = [[Str ''A'', Str ''B'', Str ''KO/TKO'', Num 30, Num 60, Num 10, Num 40]] \<and>
   calculate_fighter_stats strikes_only_table ''B'' = Inl (KeyError ''takedowns_landed'') \<and>
   calculate_fighter_stats strikes_only_table ''A'' = Inl (KeyError ''takedowns_landed'')"
proof -
  have "valid_frame strikes_only_table" by code_simp
  moreover have "load_data example_parse (Frame strikes_only_table) =
     ([Success_loaded, Info_loaded 2], Some strikes_only_table)" by code_simp
  moreover have "lost strikes_only_table ''B'' =
      [[Str ''A'', Str ''B'', Str ''KO/TKO'', Num 30, Num 60, Num 10, Num 40]]" by code_simp
  moreover have
    "calculate_fighter_stats strikes_only_table ''B'' = Inl (KeyError ''takedowns_landed'')"
    by code_simp
  moreover have
    "calculate_fighter_stats strikes_only_table ''A'' = Inl (KeyError ''takedowns_landed'')"
    by code_simp
  ultimately show ?thesis by (intro conjI)
qed

text \<open>
  C3. The classifier on the three test vectors of the specification: a submission is no
  knockout, a technical knockout is no submission, and a decision is neither.
\<close>

theorem classify_test_vectors:
  "classify (Str ''Submission (Rear Naked Choke)'') = (False, True) \<and>
   classify (Str ''TKO (Punches)'') = (True, False) \<and>
   classify (Str ''Decision - Unanimous'') = (False, False)"
  by code_simp

text \<open>
  C4. The claim fails on the code for tables that have some of a side's four columns. The
  program tests \<^verbatim>\<open>winner_strikes_landed\<close> alone. In the table that has the other three columns
  of the winner, the perspective of the winner A has four zeros, although the table has 60
  strikes attempted, 1 takedown and 2 takedown attempts on record for A. In the table that
  has \<^verbatim>\<open>winner_strikes_landed\<close> alone next to the loser's four columns, the perspective of A
  has the 30 strikes landed and three missing values: these figures are neither taken from a
  column nor filled with zeros. The program's comments say that the fighter's figures are in
  the winner columns and that dummy columns are made when the detailed columns do not exist.
\<close>

theorem partial_columns_figures:
  "map_sum id (map_option fights_data) (calculate_fighter_stats attempts_only_table ''A'') =
     Inr (Some \<lparr>columns = [''winner'', ''loser'', ''method'', ''winner_strikes_attempted'',
        ''winner_takedowns'', ''winner_takedown_attempts'', ''result'', ''strikes_landed'',
        ''strikes_attempted'', ''takedowns_landed'', ''takedown_attempts''],
      rows = [[Str ''A'', Str ''B'', Str ''Decision'', Num 60, Num 1, Num 2, Str ''Win'',
        Num 0, Num 0, Num 0, Num 0]]\<rparr>) \<and>
   map_sum id (map_option fights_data) (calculate_fighter_stats landed_only_table ''A'') =
     Inr (Some \<lparr>columns = [''winner'', ''loser'', ''method'', ''strikes_landed'',
        ''loser_strikes_landed'', ''loser_strikes_attempted'', ''loser_takedowns'',
        ''loser_takedown_attempts'', ''result'', ''winner_strikes_landed'',
        ''strikes_attempted'', ''takedowns_landed'', ''takedown_attempts''],
      rows = [[Str ''A'', Str ''B'', Str ''Decision'', Num 30, Num 10, Num 40, Num 0, Num 1,
        Str ''Win'', NaN, NaN, NaN, NaN]]\<rparr>)"
proof -
  have "map_sum id (map_option fights_data) (calculate_fighter_stats attempts_only_table ''A'') =
     Inr (Some \<lparr>columns = [''winner'', ''loser'', ''method'', ''winner_strikes_attempted'',
        ''winner_takedowns'', ''winner_takedown_attempts'', ''result'', ''strikes_landed'',
        ''strikes_attempted'', ''takedowns_landed'', ''takedown_attempts''],
      rows = [[Str ''A'', Str ''B'', Str ''Decision'', Num 60, Num 1, Num 2, Str ''Win'',
        Num 0, Num 0, Num 0, Num 0]]\<rparr>)" by code_simp
  moreover have
    "map_sum id (map_option fights_data) (calculate_fighter_stats landed_only_table ''A'') =
     Inr (Some \<lparr>columns = [''winner'', ''loser'', ''method'', ''strikes_landed'',
        ''loser_strikes_landed'', ''loser_strikes_attempted'', ''loser_takedowns'',
        ''loser_takedown_attempts'', ''result'', ''winner_strikes_landed'',
        ''strikes_attempted'', ''takedowns_landed'', ''takedown_attempts''],
      rows = [[Str ''A'', Str ''B'', Str ''Decision'', Num 30, Num 10, Num 40, Num 0, Num 1,
        Str ''Win'', NaN, NaN, NaN, NaN]]\<rparr>)" by code_simp
  ultimately show ?thesis by (intro conjI)
qed

text \<open>
  C5, as stated, fails. The table with the single row in which A is winner and loser gives A
  two perspectives from that one row, a win and a loss.
\<close>

theorem one_perspective_per_row_counterexample:
  "rows self_bout_table = [[Str ''A'', Str ''A'', Str ''Decision'']] \<and>
   map_sum id (map_option total_fights) (calculate_fighter_stats self_bout_table ''A'') =
     Inr (Some 2) \<and>
   map_sum id (map_option fights_data) (calculate_fighter_stats self_bout_table ''A'') =
     Inr (Some \<lparr>columns = [''winner'', ''loser'', ''method'', ''result'', ''strikes_landed'',
        ''strikes_attempted'', ''takedowns_landed'', ''takedown_attempts''],
      rows = [[Str ''A'', Str ''A'', Str ''Decision'', Str ''Win'', Num 0, Num 0, Num 0, Num 0],
              [Str ''A'', Str ''A'', Str ''Decision'', Str ''Loss'', Num 0, Num 0, Num 0, Num 0]]\<rparr>)"
proof -
  have "rows self_bout_table = [[Str ''A'', Str ''A'', Str ''Decision'']]"
    by (simp add: self_bout_table_def)
  moreover have
    "map_sum id (map_option total_fights) (calculate_fighter_stats self_bout_table ''A'') =
       Inr (Some 2)"
    by code_simp
  moreover have
    "map_sum id (map_option fights_data) (calculate_fighter_stats self_bout_table ''A'') =
     Inr (Some \<lparr>columns = [''winner'', ''loser'', ''method'', ''result'', ''strikes_landed'',
        ''strikes_attempted'', ''takedowns_landed'', ''takedown_attempts''],
      rows = [[Str ''A'', Str ''A'', Str ''Decision'', Str ''Win'', Num 0, Num 0, Num 0, Num 0],
              [Str ''A'', Str ''A'', Str ''Decision'', Str ''Loss'', Num 0, Num 0, Num 0, Num 0]]\<rparr>)"
    by code_simp
  ultimately show ?thesis by (intro conjI)
qed

text \<open>
  C5, amended. From every row the aggregator builds one perspective (a win) for the fighter
  if the fighter is the row's winner and one (a loss) if the fighter is the row's loser: none
  from a row the fighter is not in, exactly one from a row where the fighter is winner or
  loser but not both, and two, a win and a loss, from a row whose winner and loser are both
  the fighter. Such a row is not rejected. The results of the perspectives returned are, up
  to order, those of the rows, and \<open>total_fights\<close> is their number.
\<close>

theorem perspectives_per_row:
  assumes "valid_frame df" and "set figure_columns \<inter> set (columns df) = {}"
    and "calculate_fighter_stats df n = Inr (Some s)"
  shows "mset (map (\<lambda>r. cell_at (columns (fights_data s)) r ''result'') (rows (fights_data s))) =
           mset (concat (map (results_from_row (columns df) n) (rows df))) \<and>
         total_fights s = length (concat (map (results_from_row (columns df) n) (rows df)))"
proof -
  from assms(3) obtain af where
    af: "all_fights (wins_data (wins_frame df n)) (losses_data (losses_frame df n)) = Inr af"
    and s: "fighter_summary n (wins_frame df n) (losses_frame df n) af = Inr s"
    by (rule calculate_fighter_stats_Some)
  from s have fd: "fights_data s = af" and t: "total_fights s = length (rows af)"
    by (auto elim: fighter_summary_Inr)
  obtain gw gl where
    ms: "mset (rows af) = mset (map gw (won df n) @ map gl (lost df n))"
    and gwo: "\<And>r j. r \<in> set (won df n) \<Longrightarrow> j \<in> set (columns af) \<Longrightarrow> j \<notin> set figure_columns \<Longrightarrow>
           j \<notin> set (map fst winner_columns) \<Longrightarrow>
           cell_at (columns af) (gw r) j =
             (if j = ''result'' then Str ''Win'' else cell_at (columns df) r j)"
    and gwf: "\<And>r. r \<in> set (won df n) \<Longrightarrow> set figure_columns \<subseteq> set (columns af) \<Longrightarrow>
           map (cell_at (columns af) (gw r)) figure_columns =
             (if ''winner_strikes_landed'' \<in> set (columns df)
              then map (cell_at (columns df) r) (map fst winner_columns)
              else [Num 0, Num 0, Num 0, Num 0])"
    and glo: "\<And>r j. r \<in> set (lost df n) \<Longrightarrow> j \<in> set (columns af) \<Longrightarrow> j \<notin> set figure_columns \<Longrightarrow>
           j \<notin> set (map fst loser_columns) \<Longrightarrow>
           cell_at (columns af) (gl r) j =
             (if j = ''result'' then Str ''Loss'' else cell_at (columns df) r j)"
    and glf: "\<And>r. r \<in> set (lost df n) \<Longrightarrow> set figure_columns \<subseteq> set (columns af) \<Longrightarrow>
           map (cell_at (columns af) (gl r)) figure_columns =
             (if ''loser_strikes_landed'' \<in> set (columns df)
              then map (cell_at (columns df) r) (map fst loser_columns)
              else [Num 0, Num 0, Num 0, Num 0])"
    using all_fights_rows[OF assms(1,2) af] by blast
  let ?res = "\<lambda>r. cell_at (columns af) r ''result''"
  have res: "''result'' \<in> set (columns af)" using af by (rule result_in_all_fights)
  have w: "map ?res (map gw (won df n)) = map (\<lambda>r. Str ''Win'') (won df n)"
    using gwo[OF _ res result_not_source(1,2)] by simp
  have l: "map ?res (map gl (lost df n)) = map (\<lambda>r. Str ''Loss'') (lost df n)"
    using glo[OF _ res result_not_source(1,3)] by simp
  have "mset (map ?res (rows af)) = image_mset ?res (mset (rows af))" by simp
  also have "\<dots> = mset (map ?res (map gw (won df n)) @ map ?res (map gl (lost df n)))"
    by (simp only: ms mset_map[symmetric] map_append)
  also have "\<dots> = mset (concat (map (results_from_row (columns df) n) (rows df)))"
    unfolding w l by (simp only: mset_results_from_rows won_def lost_def)
  finally have 1: "mset (map ?res (rows af)) =
      mset (concat (map (results_from_row (columns df) n) (rows df)))" .
  from 1 have "size (mset (map ?res (rows af))) =
      size (mset (concat (map (results_from_row (columns df) n) (rows df))))" by simp
  then have 2: "length (rows af) = length (concat (map (results_from_row (columns df) n) (rows df)))"
    by (simp only: size_mset length_map)
  from 1 2 show ?thesis by (simp only: fd t)
qed

theorem perspectives_per_row_witness:
  "valid_frame self_bout_table \<and>
   set figure_columns \<inter> set (columns self_bout_table) = {} \<and>
   (\<exists>s. calculate_fighter_stats self_bout_table ''A'' = Inr (Some s) \<and>
      mset (map (\<lambda>r. cell_at (columns (fights_data s)) r ''result'') (rows (fights_data s))) =
        mset [Str ''Win'', Str ''Loss''] \<and>
      total_fights s = 2)"
proof -
  have v: "valid_frame self_bout_table" by code_simp
  have f: "set figure_columns \<inter> set (columns self_bout_table) = {}" by code_simp
  have wf: "well_formed self_bout_table" by code_simp
  have w: "won self_bout_table ''A'' \<noteq> [] \<or> lost self_bout_table ''A'' \<noteq> []" by code_simp
  from calculate_fighter_stats_returns[OF wf w]
  obtain s where s: "calculate_fighter_stats self_bout_table ''A'' = Inr (Some s)" ..
  have c: "concat (map (results_from_row (columns self_bout_table) ''A'') (rows self_bout_table)) =
      [Str ''Win'', Str ''Loss'']" by code_simp
  from perspectives_per_row[OF v f s]
  have "mset (map (\<lambda>r. cell_at (columns (fights_data s)) r ''result'') (rows (fights_data s))) =
        mset [Str ''Win'', Str ''Loss''] \<and> total_fights s = 2"
    by (simp only: c list.size length_Cons) simp
  with s have "\<exists>s. calculate_fighter_stats self_bout_table ''A'' = Inr (Some s) \<and>
      mset (map (\<lambda>r. cell_at (columns (fights_data s)) r ''result'') (rows (fights_data s))) =
        mset [Str ''Win'', Str ''Loss''] \<and>
      total_fights s = 2" by (intro exI[of _ s] conjI) simp_all
  with v f show ?thesis by (intro conjI)
qed

text \<open>
  C7. The loader has two levels of failure. When one of the columns \<^verbatim>\<open>winner\<close>, \<^verbatim>\<open>loser\<close>,
  \<^verbatim>\<open>method\<close> is absent, it returns no table and reports the list of the absent ones. When
  it returns a table, the table holds exactly the rows whose date parsed and whose winner
  and loser are present, cleaned; the number of rows with a date that did not parse is in
  the warning it shows, and nothing is shown for the rows dropped for a missing winner or
  loser. Such rows do not abort the load: with the required columns, a \<^verbatim>\<open>method\<close> column of
  texts and no missing method next to a text among the rows kept, a table is returned.
\<close>

theorem load_error_discipline:
  assumes "valid_frame raw"
  shows "(filter (\<lambda>c. c \<notin> set (columns raw)) required_columns \<noteq> [] \<longrightarrow>
            snd (load_data parse (Frame raw)) = None \<and>
            Error_missing_columns (filter (\<lambda>c. c \<notin> set (columns raw)) required_columns)
              \<in> set (fst (load_data parse (Frame raw)))) \<and>
         (\<forall>t. snd (load_data parse (Frame raw)) = Some t \<longrightarrow>
            columns t = columns raw \<and>
            rows t = map (cleaned parse (columns raw)) (filter (kept parse (columns raw)) (rows raw)) \<and>
            fst (load_data parse (Frame raw)) =
              Success_loaded #
              (if dropped_dates parse raw > 0
               then [Warning_invalid_dates (dropped_dates parse raw)] else []) @
              [Info_loaded (length (rows t))]) \<and>
         (filter (\<lambda>c. c \<notin> set (columns raw)) required_columns = [] \<and>
          has_str_accessor (column raw ''method'') \<and>
          sortable (map (\<lambda>r. normalize_method (cell_at (columns raw) r ''method''))
                     (filter (kept parse (columns raw)) (rows raw))) \<longrightarrow>
            (\<exists>t. snd (load_data parse (Frame raw)) = Some t))"
  unfolding load_data_Frame[OF assms]
  by (simp split: if_splits)

theorem load_error_discipline_witness:
  "valid_frame raw_table \<and> valid_frame raw_table_without_method \<and>
   snd (load_data example_parse (Frame raw_table_without_method)) = None \<and>
   Error_missing_columns [''method'']
     \<in> set (fst (load_data example_parse (Frame raw_table_without_method))) \<and>
   (\<exists>t. snd (load_data example_parse (Frame raw_table)) = Some t \<and>
      rows t = [[Date 18628, Str ''A'', Str ''B'', Str ''KO/TKO''],
                [Date 18779, Str ''C'', Str ''A'', Str ''Decision - Unanimous'']] \<and>
      fst (load_data example_parse (Frame raw_table)) =
        [Success_loaded, Warning_invalid_dates 1, Info_loaded 2])"
proof -
  have v: "valid_frame raw_table" by code_simp
  have v': "valid_frame raw_table_without_method" by code_simp
  have m': "filter (\<lambda>c. c \<notin> set (columns raw_table_without_method)) required_columns =
      [''method'']" by code_simp
  from load_error_discipline[OF v', of example_parse]
  have 1: "snd (load_data example_parse (Frame raw_table_without_method)) = None \<and>
      Error_missing_columns [''method'']
        \<in> set (fst (load_data example_parse (Frame raw_table_without_method)))"
    unfolding m' by simp
  have m: "filter (\<lambda>c. c \<notin> set (columns raw_table)) required_columns = []" by code_simp
  have a: "has_str_accessor (column raw_table ''method'')" by code_simp
  have s: "sortable (map (\<lambda>r. normalize_method (cell_at (columns raw_table) r ''method''))
      (filter (kept example_parse (columns raw_table)) (rows raw_table)))" by code_simp
  have r: "map (cleaned example_parse (columns raw_table))
      (filter (kept example_parse (columns raw_table)) (rows raw_table)) =
      [[Date 18628, Str ''A'', Str ''B'', Str ''KO/TKO''],
       [Date 18779, Str ''C'', Str ''A'', Str ''Decision - Unanimous'']]" by code_simp
  have d: "dropped_dates example_parse raw_table = 1" by code_simp
  note ld = load_error_discipline[OF v, of example_parse]
  from ld m a s obtain t where t: "snd (load_data example_parse (Frame raw_table)) = Some t"
    by blast
  from ld t have "rows t = map (cleaned example_parse (columns raw_table))
      (filter (kept example_parse (columns raw_table)) (rows raw_table))"
    and "fst (load_data example_parse (Frame raw_table)) =
          Success_loaded #
          (if dropped_dates example_parse raw_table > 0
           then [Warning_invalid_dates (dropped_dates example_parse raw_table)] else []) @
          [Info_loaded (length (rows t))]" by blast+
  then have "rows t = [[Date 18628, Str ''A'', Str ''B'', Str ''KO/TKO''],
                [Date 18779, Str ''C'', Str ''A'', Str ''Decision - Unanimous'']]"
    and "fst (load_data example_parse (Frame raw_table)) =
        [Success_loaded, Warning_invalid_dates 1, Info_loaded 2]"
    by (simp_all add: r d)
  with t have 2: "\<exists>t. snd (load_data example_parse (Frame raw_table)) = Some t \<and>
      rows t = [[Date 18628, Str ''A'', Str ''B'', Str ''KO/TKO''],
                [Date 18779, Str ''C'', Str ''A'', Str ''Decision - Unanimous'']] \<and>
      fst (load_data example_parse (Frame raw_table)) =
        [Success_loaded, Warning_invalid_dates 1, Info_loaded 2]"
    by (intro exI[of _ t] conjI)
  from v v' 1 2 show ?thesis by (intro conjI) simp_all
qed

text \<open>
  C8. The loader's normalization of a method cell (stripping the white space at both ends,
  then replacing the exact labels \<^verbatim>\<open>KO\<close>, \<^verbatim>\<open>TKO\<close>, \<^verbatim>\<open>Knockout\<close>, \<^verbatim>\<open>Technical Knockout\<close> and
  \<^verbatim>\<open>KO/TKO\<close> with a trailing space by \<^verbatim>\<open>KO/TKO\<close>) does not change the classifier's two flags,
  for every method cell, missing values included.
\<close>

theorem normalization_commutes_with_classifier:
  "classify (normalize_method c) = classify c"
proof (cases c)
  case (Str s)
  have "classify (normalize_method (Str s)) = classify (replace method_synonyms (Str (strip s)))"
    by (simp only: normalize_method_def str_strip.simps)
  also have "\<dots> = classify (Str (strip s))" by (rule classify_replace)
  also have "\<dots> = classify (Str s)" by (rule classify_strip)
  finally show ?thesis by (simp only: Str)
qed (simp_all add: normalize_method_def classify_def)

text \<open>
  C9. The classifier sets both flags for the method text \<^verbatim>\<open>TKO (Leg Kicks)\<close>. The decision wins
  of the chart are the difference \<open>wins - ko_wins - sub_wins\<close> for every stats object, and for
  the fighter whose one win has that method the difference is \<open>1 - 1 - 1 = -1\<close>: the chart
  shows a knockout and a submission and no decision.
\<close>

theorem classifier_not_exclusive:
  "classify (Str ''TKO (Leg Kicks)'') = (True, True) \<and>
   (\<forall>s. decision_wins s = int (wins s) - int (ko_wins s) - int (sub_wins s)) \<and>
   map_sum id (map_option wins) (calculate_fighter_stats leg_kick_table ''A'') = Inr (Some 1) \<and>
   map_sum id (map_option ko_wins) (calculate_fighter_stats leg_kick_table ''A'') = Inr (Some 1) \<and>
   map_sum id (map_option sub_wins) (calculate_fighter_stats leg_kick_table ''A'') = Inr (Some 1) \<and>
   map_sum id (map_option decision_wins) (calculate_fighter_stats leg_kick_table ''A'') =
     Inr (Some (- 1)) \<and>
   map_sum id create_finish_method_pie (calculate_fighter_stats leg_kick_table ''A'') =
     Inr [(''KO/TKO'', 1, ''#ff4444''), (''Submission'', 1, ''#44ff44'')]"
proof -
  have "classify (Str ''TKO (Leg Kicks)'') = (True, True)" by code_simp
  moreover have "\<forall>s. decision_wins s = int (wins s) - int (ko_wins s) - int (sub_wins s)"
    by (simp add: decision_wins_def)
  moreover have
    "map_sum id (map_option wins) (calculate_fighter_stats leg_kick_table ''A'') = Inr (Some 1)"
    by code_simp
  moreover have
    "map_sum id (map_option ko_wins) (calculate_fighter_stats leg_kick_table ''A'') = Inr (Some 1)"
    by code_simp
  moreover have
    "map_sum id (map_option sub_wins) (calculate_fighter_stats leg_kick_table ''A'') = Inr (Some 1)"
    by code_simp
  moreover have
    "map_sum id (map_option decision_wins) (calculate_fighter_stats leg_kick_table ''A'') =
       Inr (Some (- 1))"
    by code_simp
  moreover have
    "map_sum id create_finish_method_pie (calculate_fighter_stats leg_kick_table ''A'') =
       Inr [(''KO/TKO'', 1, ''#ff4444''), (''Submission'', 1, ''#44ff44'')]"
    by code_simp
  ultimately show ?thesis by (intro conjI)
qed

text \<open>
  C10. The aggregator depends on the fighter's own rows only: two tables with the same
  columns and the same rows involving the fighter, in the same order, give the same result,
  be it a stats object, no result or an exception.
\<close>

theorem own_rows_only:
  assumes "columns df1 = columns df2"
    and "filter (involves (columns df1) n) (rows df1) = filter (involves (columns df2) n) (rows df2)"
  shows "calculate_fighter_stats df1 n = calculate_fighter_stats df2 n"
proof -
  have w: "won df n = filter (\<lambda>r. cell_at (columns df) r ''winner'' = Str n)
      (filter (involves (columns df) n) (rows df))" for df
    by (auto simp add: won_def involves_def intro: filter_cong)
  have l: "lost df n = filter (\<lambda>r. cell_at (columns df) r ''loser'' = Str n)
      (filter (involves (columns df) n) (rows df))" for df
    by (auto simp add: lost_def involves_def intro: filter_cong)
  from assms have f: "filter (involves (columns df2) n) (rows df1) =
      filter (involves (columns df2) n) (rows df2)" by simp
  have won: "won df1 n = won df2 n" by (simp only: w[of df1] w[of df2] assms(1) f)
  have lost: "lost df1 n = lost df2 n" by (simp only: l[of df1] l[of df2] assms(1) f)
  have wf: "wins_frame df1 n = wins_frame df2 n"
    by (simp add: wins_frame_def won assms(1) setitem_def)
  have lf: "losses_frame df1 n = losses_frame df2 n"
    by (simp add: losses_frame_def lost assms(1) setitem_def)
  show ?thesis
    by (simp only: calculate_fighter_stats_unfold won lost wf lf assms(1))
qed

theorem own_rows_only_witness:
  "columns example_table = columns other_table \<and>
   filter (involves (columns example_table) ''A'') (rows example_table) =
     filter (involves (columns other_table) ''A'') (rows other_table) \<and>
   rows example_table \<noteq> rows other_table \<and>
   calculate_fighter_stats example_table ''A'' = calculate_fighter_stats other_table ''A''"
proof -
  have c: "columns example_table = columns other_table" by (simp add: other_table_def)
  have f: "filter (involves (columns example_table) ''A'') (rows example_table) =
     filter (involves (columns other_table) ''A'') (rows other_table)" by code_simp
  have d: "rows example_table \<noteq> rows other_table"
    by (simp add: example_table_def other_table_def)
  from own_rows_only[OF c f] c f d show ?thesis by (intro conjI)
qed

end
